theory Spec2Isabelle
  imports Complex_Main
begin

section \<open>Python values and exceptions\<close>

text \<open>
  The development embeds \<^verbatim>\<open>python/examples/advanced_data_processor.py\<close>: the record
  validator and transformer, the batch processor, the two file drivers and \<^verbatim>\<open>main\<close>.
  Every function that can raise returns a sum: \<open>Inl\<close> carries the exception, \<open>Inr\<close> the
  value. Only subclasses of \<^verbatim>\<open>Exception\<close> are modelled, since these are what the
  handlers of the program catch.
\<close>

datatype exn_class =
    ValueError | TypeError | OverflowError | KeyError
  | ProcessingError | FileProcessingError | DatabaseError
  | LibraryError string

text \<open>
  \<open>LibraryError name\<close> stands for any other subclass of \<^verbatim>\<open>Exception\<close>, by its name:
  one of pandas, SQLAlchemy or the database driver, or one the interpreter raises by itself.
  \<open>exn_msg\<close> is what \<^verbatim>\<open>str(e)\<close> and \<^verbatim>\<open>f"{e}"\<close> give.
\<close>

datatype py_exn = Exn (exn_class: exn_class) (exn_msg: string)

text \<open>
  A Python float is \<open>NaN\<close>, an infinity, or \<open>Finite q\<close>: the double nearest to the
  rational \<open>q\<close>. Rounding to binary64 is not computed, so two models of the same rational
  are the same double (up to the sign of zero); nothing below relies on two floats being
  different.
\<close>

datatype pyfloat = Finite rat | PosInf | NegInf | NaN

datatype pyval = PNone | PBool bool | PInt int | PFloat pyfloat | PStr string

type_synonym pyrecord = "string \<rightharpoonup> pyval"

section \<open>The string methods used by the transformer\<close>

text \<open>
  Strings are byte lists; the case and whitespace tables are the ASCII part of Python's
  \<^verbatim>\<open>str.isspace\<close>, \<^verbatim>\<open>str.islower\<close> and \<^verbatim>\<open>str.isupper\<close>. A byte outside ASCII is
  neither whitespace nor cased here, so these are the methods on ASCII strings.
\<close>

definition is_space :: "char \<Rightarrow> bool" where
  "is_space c = (c \<in> set [CHR '' '', CHR 0x09, CHR 0x0A, CHR 0x0B, CHR 0x0C, CHR 0x0D,
                           CHR 0x1C, CHR 0x1D, CHR 0x1E, CHR 0x1F])"

definition lower_letters :: string where
  "lower_letters = ''abcdefghijklmnopqrstuvwxyz''"

definition upper_letters :: string where
  "upper_letters = ''ABCDEFGHIJKLMNOPQRSTUVWXYZ''"

definition is_lower :: "char \<Rightarrow> bool" where
  "is_lower c = (c \<in> set lower_letters)"

definition is_upper :: "char \<Rightarrow> bool" where
  "is_upper c = (c \<in> set upper_letters)"

definition to_upper :: "char \<Rightarrow> char" where
  "to_upper c = (case map_of (zip lower_letters upper_letters) c of Some u \<Rightarrow> u | None \<Rightarrow> c)"

definition to_lower :: "char \<Rightarrow> char" where
  "to_lower c = (case map_of (zip upper_letters lower_letters) c of Some l \<Rightarrow> l | None \<Rightarrow> c)"

definition strip :: "string \<Rightarrow> string" where
  "strip s = rev (dropWhile is_space (rev (dropWhile is_space s)))"

text \<open>
  \<^verbatim>\<open>str.title\<close>: a cased character is upper-cased when the character before it is not
  cased, and lower-cased otherwise; the flag is \<^verbatim>\<open>previous_is_cased\<close>.
\<close>

fun title_from :: "bool \<Rightarrow> string \<Rightarrow> string" where
  "title_from previous_is_cased [] = []"
| "title_from previous_is_cased (c # cs) =
     (if is_lower c then (if previous_is_cased then c else to_upper c) # title_from True cs
      else if is_upper c then (if previous_is_cased then to_lower c else c) # title_from True cs
      else c # title_from False cs)"

definition title :: "string \<Rightarrow> string" where
  "title s = title_from False s"

section \<open>The builtins \<^verbatim>\<open>str\<close> and \<^verbatim>\<open>float\<close>\<close>

definition digit_chars :: string where
  "digit_chars = ''0123456789''"

definition is_digit :: "char \<Rightarrow> bool" where
  "is_digit c = (c \<in> set digit_chars)"

definition digit_val :: "char \<Rightarrow> nat" where
  "digit_val c = (case map_of (zip digit_chars [0, 1, 2, 3, 4, 5, 6, 7, 8, 9]) c of
                    Some d \<Rightarrow> d | None \<Rightarrow> 0)"

fun str_nat :: "nat \<Rightarrow> string" where
  "str_nat n = (if n < 10 then [digit_chars ! n] else str_nat (n div 10) @ [digit_chars ! (n mod 10)])"

declare str_nat.simps [simp del]

definition str_int :: "int \<Rightarrow> string" where
  "str_int i = (if i < 0 then CHR ''-'' # str_nat (nat (- i)) else str_nat (nat i))"

text \<open>
  \<^verbatim>\<open>str(v)\<close>. The text of a float (\<^verbatim>\<open>repr\<close>: the shortest decimal that reads back as
  the same double) is not computed here; it is the parameter \<open>float_repr\<close>.
\<close>

fun py_str :: "(pyfloat \<Rightarrow> string) \<Rightarrow> pyval \<Rightarrow> string" where
  "py_str float_repr PNone = ''None''"
| "py_str float_repr (PBool b) = (if b then ''True'' else ''False'')"
| "py_str float_repr (PInt i) = str_int i"
| "py_str float_repr (PFloat f) = float_repr f"
| "py_str float_repr (PStr s) = s"

text \<open>
  \<^verbatim>\<open>float\<close> strips leading and trailing whitespace by the C table: space and the five
  characters \<^verbatim>\<open>\t \n \v \f \r\<close>. The separators \<^verbatim>\<open>0x1C\<close> to \<^verbatim>\<open>0x1F\<close>, which \<^verbatim>\<open>str.strip\<close>
  removes, stay and make the string unreadable.
\<close>

definition is_float_space :: "char \<Rightarrow> bool" where
  "is_float_space c = (c \<in> set [CHR '' '', CHR 0x09, CHR 0x0A, CHR 0x0B, CHR 0x0C, CHR 0x0D])"

definition float_strip :: "string \<Rightarrow> string" where
  "float_strip s = rev (dropWhile is_float_space (rev (dropWhile is_float_space s)))"

text \<open>
  The grammar \<^verbatim>\<open>float\<close> accepts for a string, after stripping:
  \<^verbatim>\<open>[sign] (inf | infinity | nan | number [exponent])\<close> without regard to case, where
  \<^verbatim>\<open>number\<close> is \<^verbatim>\<open>digitpart ["." [digitpart]]\<close> or \<^verbatim>\<open>"." digitpart\<close>, \<^verbatim>\<open>exponent\<close> is
  \<^verbatim>\<open>("e" | "E") [sign] digitpart\<close> and \<^verbatim>\<open>digitpart\<close> is \<^verbatim>\<open>digit (["_"] digit)*\<close>.
  \<open>digitpart\<close> reads the longest digit part at the front of a string and returns its digits
  and the rest.
\<close>

fun digitpart :: "string \<Rightarrow> string \<times> string" where
  "digitpart [] = ([], [])"
| "digitpart (c # cs) =
     (if \<not> is_digit c then ([], c # cs)
      else (case cs of
              u # d # ds \<Rightarrow>
                if u = CHR ''_'' \<and> is_digit d
                then (case digitpart (d # ds) of (ds', r) \<Rightarrow> (c # ds', r))
                else (case digitpart cs of (ds', r) \<Rightarrow> (c # ds', r))
            | _ \<Rightarrow> (case digitpart cs of (ds', r) \<Rightarrow> (c # ds', r))))"

definition nat_of_digits :: "string \<Rightarrow> nat" where
  "nat_of_digits ds = foldl (\<lambda>a d. 10 * a + digit_val d) 0 ds"

definition split_sign :: "string \<Rightarrow> bool \<times> string" where
  "split_sign s = (case s of
                     [] \<Rightarrow> (False, s)
                   | c # r \<Rightarrow> if c = CHR ''-'' then (True, r)
                              else if c = CHR ''+'' then (False, r) else (False, s))"

definition exponent :: "string \<Rightarrow> int option" where
  "exponent s = (case s of
                   [] \<Rightarrow> Some 0
                 | c # r \<Rightarrow>
                     if c = CHR ''e'' \<or> c = CHR ''E''
                     then (case split_sign r of (neg, r') \<Rightarrow>
                             (case digitpart r' of (ds, rest) \<Rightarrow>
                                if ds = [] \<or> rest \<noteq> [] then None
                                else Some (if neg then - int (nat_of_digits ds)
                                           else int (nat_of_digits ds))))
                     else None)"

definition pow10 :: "int \<Rightarrow> rat" where
  "pow10 e = (if e < 0 then 1 / 10 ^ nat (- e) else 10 ^ nat e)"

definition floatnumber :: "string \<Rightarrow> rat option" where
  "floatnumber s =
     (case digitpart s of (ip, r1) \<Rightarrow>
        (case (case r1 of
                 [] \<Rightarrow> ([], r1)
               | c # r \<Rightarrow> if c = CHR ''.'' then digitpart r else ([], r1)) of (fp, r2) \<Rightarrow>
           if ip = [] \<and> fp = [] then None
           else (case exponent r2 of
                   None \<Rightarrow> None
                 | Some e \<Rightarrow>
                     Some (of_nat (nat_of_digits (ip @ fp)) * pow10 (e - int (length fp))))))"

text \<open>
  A magnitude that rounds to \<open>2 ^ 1024\<close> or more has no finite double: a string gives an
  infinity, an \<^verbatim>\<open>int\<close> raises \<^verbatim>\<open>OverflowError\<close>.
\<close>

definition double_limit :: rat where
  "double_limit = 2 ^ 1024 - 2 ^ 970"

definition round_double :: "rat \<Rightarrow> pyfloat" where
  "round_double q = (if double_limit \<le> q then PosInf
                     else if q \<le> - double_limit then NegInf else Finite q)"

definition float_of_str :: "string \<Rightarrow> pyfloat option" where
  "float_of_str s =
     (case split_sign (float_strip s) of (neg, u) \<Rightarrow>
        if map to_lower u = ''inf'' \<or> map to_lower u = ''infinity''
        then Some (if neg then NegInf else PosInf)
        else if map to_lower u = ''nan'' then Some NaN
        else (case floatnumber u of
                None \<Rightarrow> None
              | Some q \<Rightarrow> Some (round_double (if neg then - q else q))))"

fun py_float :: "pyval \<Rightarrow> py_exn + pyfloat" where
  "py_float PNone = Inl (Exn TypeError ''float() argument must be a string or a real number'')"
| "py_float (PBool b) = Inr (Finite (if b then 1 else 0))"
| "py_float (PInt i) =
     (if double_limit \<le> \<bar>of_int i\<bar> then Inl (Exn OverflowError ''int too large to convert to float'')
      else Inr (Finite (of_int i)))"
| "py_float (PFloat f) = Inr f"
| "py_float (PStr s) =
     (case float_of_str s of
        None \<Rightarrow> Inl (Exn ValueError ''could not convert string to float'')
      | Some f \<Rightarrow> Inr f)"

section \<open>Record validator and transformer\<close>

definition required_fields :: "string list" where
  "required_fields = [''id'', ''name'', ''value'']"

text \<open>\<^verbatim>\<open>record[key]\<close>.\<close>

definition getitem :: "pyrecord \<Rightarrow> string \<Rightarrow> py_exn + pyval" where
  "getitem record key = (case record key of None \<Rightarrow> Inl (Exn KeyError key) | Some v \<Rightarrow> Inr v)"

text \<open>
  \<^verbatim>\<open>validate_record\<close>: the \<^verbatim>\<open>try\<close> around \<^verbatim>\<open>float(record['value'])\<close> handles
  \<^verbatim>\<open>(ValueError, TypeError)\<close>; any other exception leaves the function.
\<close>

definition validate_record :: "pyrecord \<Rightarrow> py_exn + bool" where
  "validate_record record =
     (if \<not> list_all (\<lambda>field. record field \<noteq> None) required_fields then Inr False
      else (case (case getitem record ''value'' of Inl e \<Rightarrow> Inl e | Inr v \<Rightarrow> py_float v) of
              Inl e \<Rightarrow> if exn_class e = ValueError \<or> exn_class e = TypeError then Inr False
                        else Inl e
            | Inr f \<Rightarrow> Inr True))"

text \<open>
  \<^verbatim>\<open>process_record\<close> works on a copy of the record, so the argument is unchanged; the
  three steps are the two guarded assignments and the unconditional one.
\<close>

definition process_record :: "(pyfloat \<Rightarrow> string) \<Rightarrow> pyrecord \<Rightarrow> py_exn + pyrecord" where
  "process_record float_repr record =
     (let processed = record;
          processed = (case processed ''name'' of
                         None \<Rightarrow> processed
                       | Some n \<Rightarrow> processed(''name'' \<mapsto> PStr (title (strip (py_str float_repr n)))))
      in case (case processed ''value'' of
                 None \<Rightarrow> Inr processed
               | Some v \<Rightarrow> (case py_float v of
                              Inl e \<Rightarrow> Inl e
                            | Inr f \<Rightarrow> Inr (processed(''value'' \<mapsto> PFloat f)))) of
           Inl e \<Rightarrow> Inl e
         | Inr processed \<Rightarrow> Inr (processed(''processed'' \<mapsto> PBool True)))"

section \<open>What the program is given\<close>

text \<open>
  The database behind the SQLAlchemy engine is a state machine: running the block
  \<^verbatim>\<open>with self.engine.connect() as conn: conn.execute(insert_query, batch); conn.commit()\<close>
  on a database state either finishes (\<open>None\<close>) or raises (\<open>Some e\<close>), and leaves a new
  state. The state type and the transition are arbitrary.
\<close>

type_synonym 'db engine = "'db \<Rightarrow> pyrecord list \<Rightarrow> py_exn option \<times> 'db"

text \<open>
  The platform holds what the interpreter, the file system and the libraries answer:
  \<^verbatim>\<open>Path.exists\<close>, the rows \<^verbatim>\<open>pd.read_csv\<close> parses from a path (as the dictionaries
  \<^verbatim>\<open>row.to_dict()\<close> gives, in file order) or the exception it raises, \<^verbatim>\<open>create_engine\<close>,
  and the text of a float.
\<close>

record 'db platform =
  float_repr :: "pyfloat \<Rightarrow> string"
  path_exists :: "string \<Rightarrow> bool"
  read_csv :: "string \<Rightarrow> py_exn + pyrecord list"
  create_engine :: "string \<Rightarrow> py_exn + 'db engine"

text \<open>A batch is a data frame: its rows with their index labels, as \<^verbatim>\<open>iterrows\<close> gives them.\<close>

type_synonym dataframe = "(nat \<times> pyrecord) list"

record ProcessingResult =
  success :: bool
  records_processed :: int
  records_failed :: int
  errors :: "string list"

record 'db DataProcessor =
  db_url :: string
  batch_size :: int
  max_workers :: int
  engine :: "'db engine"

section \<open>The constructor\<close>

text \<open>
  The constructor returns, beside its outcome, the calls it made to the outside, in order.
  The two defaulted parameters are optional arguments.
\<close>

datatype event = CreateEngine string | LogInfo string

definition DataProcessor_init ::
  "'db platform \<Rightarrow> string \<Rightarrow> int option \<Rightarrow> int option \<Rightarrow> event list \<times> (py_exn + 'db DataProcessor)" where
  "DataProcessor_init pf url batch_size_arg max_workers_arg =
     (let bs = (case batch_size_arg of None \<Rightarrow> 1000 | Some b \<Rightarrow> b);
          mw = (case max_workers_arg of None \<Rightarrow> 4 | Some m \<Rightarrow> m)
      in if url = [] then ([], Inl (Exn ValueError ''db_url cannot be empty''))
         else if bs \<le> 0 then ([], Inl (Exn ValueError ''batch_size must be positive''))
         else if mw \<le> 0 then ([], Inl (Exn ValueError ''max_workers must be positive''))
         else (case create_engine pf url of
                 Inl e \<Rightarrow> ([CreateEngine url], Inl e)
               | Inr eng \<Rightarrow>
                   ([CreateEngine url,
                     LogInfo (''DataProcessor initialized (batch_size='' @ str_int bs
                              @ '', workers='' @ str_int mw @ '')'')],
                    Inr \<lparr>db_url = url, batch_size = bs, max_workers = mw, engine = eng\<rparr>)))"

section \<open>The batch reader\<close>

text \<open>
  \<^verbatim>\<open>pd.read_csv(path, chunksize=n)\<close> yields the rows in frames of \<open>n\<close> rows, the last
  one shorter when the count is not a multiple of \<open>n\<close>; a file without data rows gives one
  empty frame.
\<close>

fun chunks :: "nat \<Rightarrow> 'a list \<Rightarrow> 'a list list" where
  "chunks n xs = (if n = 0 \<or> length xs \<le> n then [xs] else take n xs # chunks n (drop n xs))"

declare chunks.simps [simp del]

text \<open>
  \<^verbatim>\<open>read_csv_batches\<close> is a generator; both callers consume it with \<^verbatim>\<open>list(...)\<close>, so what
  they see is every batch, or the exception. The row index runs through the whole file.
  A chunk size below 1 makes \<^verbatim>\<open>pd.read_csv\<close> raise \<^verbatim>\<open>ValueError\<close> inside the \<^verbatim>\<open>try\<close>.
\<close>

definition read_csv_batches ::
  "'db platform \<Rightarrow> 'db DataProcessor \<Rightarrow> string \<Rightarrow> py_exn + dataframe list" where
  "read_csv_batches pf self file_path =
     (if \<not> path_exists pf file_path
      then Inl (Exn FileProcessingError (''File not found: '' @ file_path))
      else (case (if batch_size self < 1
                  then Inl (Exn ValueError ''chunksize must be an integer >=1'')
                  else read_csv pf file_path) of
              Inl e \<Rightarrow> Inl (Exn FileProcessingError (''Failed to read CSV: '' @ exn_msg e))
            | Inr rows \<Rightarrow> Inr (chunks (nat (batch_size self)) (zip [0..<length rows] rows))))"

section \<open>The storage sink and the batch processor\<close>

definition store_batch :: "'db DataProcessor \<Rightarrow> pyrecord list \<Rightarrow> 'db \<Rightarrow> (py_exn + int) \<times> 'db" where
  "store_batch self batch db =
     (if batch = [] then (Inr 0, db)
      else (case engine self db batch of
              (None, db') \<Rightarrow> (Inr (int (length batch)), db')
            | (Some e, db') \<Rightarrow>
                (Inl (Exn DatabaseError (''Failed to store batch: '' @ exn_msg e)), db')))"

text \<open>
  The local variables of \<^verbatim>\<open>process_batch\<close>: \<^verbatim>\<open>records_processed\<close>, \<^verbatim>\<open>records_failed\<close>,
  \<^verbatim>\<open>errors\<close> and \<^verbatim>\<open>valid_records\<close>.
\<close>

record batch_state =
  n_processed :: int
  n_failed :: int
  errs :: "string list"
  valid_records :: "pyrecord list"

definition initial_state :: batch_state where
  "initial_state = \<lparr>n_processed = 0, n_failed = 0, errs = [], valid_records = []\<rparr>"

text \<open>The handler \<^verbatim>\<open>except Exception as e\<close> of the loop over the rows.\<close>

definition record_error :: "batch_state \<Rightarrow> nat \<Rightarrow> py_exn \<Rightarrow> batch_state" where
  "record_error st idx e =
     st\<lparr>n_failed := n_failed st + 1,
        errs := errs st @ [''Error processing record '' @ str_nat idx @ '': '' @ exn_msg e]\<rparr>"

text \<open>One turn of the loop.\<close>

definition process_row :: "(pyfloat \<Rightarrow> string) \<Rightarrow> batch_state \<Rightarrow> nat \<times> pyrecord \<Rightarrow> batch_state" where
  "process_row fr st row =
     (case row of (idx, record) \<Rightarrow>
        (case validate_record record of
           Inl e \<Rightarrow> record_error st idx e
         | Inr valid \<Rightarrow>
             if \<not> valid
             then st\<lparr>n_failed := n_failed st + 1,
                     errs := errs st @ [''Validation failed for record '' @ str_nat idx]\<rparr>
             else (case process_record fr record of
                     Inl e \<Rightarrow> record_error st idx e
                   | Inr processed_record \<Rightarrow>
                       st\<lparr>valid_records := valid_records st @ [processed_record],
                          n_processed := n_processed st + 1\<rparr>)))"

definition process_rows :: "(pyfloat \<Rightarrow> string) \<Rightarrow> dataframe \<Rightarrow> batch_state" where
  "process_rows fr df = foldl (process_row fr) initial_state df"

text \<open>
  \<^verbatim>\<open>process_batch\<close>: the loop, then the storage call under \<^verbatim>\<open>except DatabaseError\<close>; an
  exception of another class would leave the function.
\<close>

definition process_batch ::
  "'db platform \<Rightarrow> 'db DataProcessor \<Rightarrow> dataframe \<Rightarrow> 'db \<Rightarrow> (py_exn + ProcessingResult) \<times> 'db" where
  "process_batch pf self df db =
     (let st = process_rows (float_repr pf) df
      in case (if valid_records st \<noteq> []
               then (case store_batch self (valid_records st) db of
                       (Inr n, db') \<Rightarrow> (Inr st, db')
                     | (Inl e, db') \<Rightarrow>
                         if exn_class e = DatabaseError
                         then (Inr (st\<lparr>errs := errs st @ [''Database storage failed: '' @ exn_msg e],
                                       n_failed := n_failed st + int (length (valid_records st)),
                                       n_processed := n_processed st - int (length (valid_records st))\<rparr>),
                               db')
                         else (Inl e, db'))
               else (Inr st, db)) of
           (Inl e, db') \<Rightarrow> (Inl e, db')
         | (Inr st', db') \<Rightarrow>
             (Inr \<lparr>success = (n_failed st' = 0), records_processed = n_processed st',
                   records_failed = n_failed st', errors = errs st'\<rparr>, db'))"

section \<open>The two drivers\<close>

text \<open>The accumulators \<^verbatim>\<open>total_processed\<close>, \<^verbatim>\<open>total_failed\<close> and \<^verbatim>\<open>all_errors\<close>.\<close>

record totals =
  total_processed :: int
  total_failed :: int
  all_errors :: "string list"

definition no_totals :: totals where
  "no_totals = \<lparr>total_processed = 0, total_failed = 0, all_errors = []\<rparr>"

definition add_result :: "totals \<Rightarrow> ProcessingResult \<Rightarrow> totals" where
  "add_result acc result =
     \<lparr>total_processed = total_processed acc + records_processed result,
      total_failed = total_failed acc + records_failed result,
      all_errors = all_errors acc @ errors result\<rparr>"

definition summary :: "totals \<Rightarrow> ProcessingResult" where
  "summary acc = \<lparr>success = (total_failed acc = 0), records_processed = total_processed acc,
                  records_failed = total_failed acc, errors = all_errors acc\<rparr>"

text \<open>
  The loop of \<^verbatim>\<open>process_file_sequential\<close> has no handler: an exception of
  \<^verbatim>\<open>process_batch\<close> would end the run.
\<close>

fun sequential_loop ::
  "'db platform \<Rightarrow> 'db DataProcessor \<Rightarrow> dataframe list \<Rightarrow> totals \<Rightarrow> 'db \<Rightarrow> (py_exn + totals) \<times> 'db" where
  "sequential_loop pf self [] acc db = (Inr acc, db)"
| "sequential_loop pf self (batch # rest) acc db =
     (case process_batch pf self batch db of
        (Inl e, db') \<Rightarrow> (Inl e, db')
      | (Inr result, db') \<Rightarrow> sequential_loop pf self rest (add_result acc result) db')"

definition process_file_sequential ::
  "'db platform \<Rightarrow> 'db DataProcessor \<Rightarrow> string \<Rightarrow> 'db \<Rightarrow> (py_exn + ProcessingResult) \<times> 'db" where
  "process_file_sequential pf self file_path db =
     (case read_csv_batches pf self file_path of
        Inl e \<Rightarrow> (Inl e, db)
      | Inr batches \<Rightarrow>
          (case sequential_loop pf self batches no_totals db of
             (Inl e, db') \<Rightarrow> (Inl e, db')
           | (Inr acc, db') \<Rightarrow> (Inr (summary acc), db')))"

text \<open>
  The thread pool. Each worker runs \<^verbatim>\<open>process_batch\<close> on one batch and touches the
  database once, so a run of the pool is the order in which the batches reach the database
  (\<open>exec_order\<close>) and the order in which \<^verbatim>\<open>as_completed\<close> hands the futures back
  (\<open>completion_order\<close>), both lists of batch numbers. The pool takes the batches from its
  queue in the order of submission, so with \<open>k\<close> workers a batch is overtaken while it
  waits or runs by fewer than \<open>k\<close> later ones: \<open>fifo_order\<close>. The futures that are done
  when \<^verbatim>\<open>as_completed\<close> is called come back in no particular order, so the completion
  order is any arrangement of the batch numbers.
\<close>

record schedule =
  exec_order :: "nat list"
  completion_order :: "nat list"

fun fifo_order :: "nat \<Rightarrow> nat list \<Rightarrow> bool" where
  "fifo_order k [] = True"
| "fifo_order k (j # later) = (length (filter (\<lambda>i. i < j) later) < k \<and> fifo_order k later)"

definition valid_schedule :: "nat \<Rightarrow> nat \<Rightarrow> schedule \<Rightarrow> bool" where
  "valid_schedule k n sched =
     (sort (exec_order sched) = [0..<n] \<and> fifo_order k (exec_order sched)
      \<and> sort (completion_order sched) = [0..<n])"

text \<open>The workers, in the order they reach the database; the result is the futures.\<close>

fun run_workers ::
  "'db platform \<Rightarrow> 'db DataProcessor \<Rightarrow> dataframe list \<Rightarrow> nat list \<Rightarrow> 'db
   \<Rightarrow> (nat \<times> (py_exn + ProcessingResult)) list \<times> 'db" where
  "run_workers pf self batches [] db = ([], db)"
| "run_workers pf self batches (i # order) db =
     (if i < length batches
      then (case process_batch pf self (batches ! i) db of
              (outcome, db') \<Rightarrow>
                (case run_workers pf self batches order db' of
                   (futures, db'') \<Rightarrow> ((i, outcome) # futures, db'')))
      else run_workers pf self batches order db)"

definition as_completed ::
  "(nat \<times> (py_exn + ProcessingResult)) list \<Rightarrow> nat list \<Rightarrow> (nat \<times> (py_exn + ProcessingResult)) list" where
  "as_completed futures order =
     List.map_filter (\<lambda>i. map_option (Pair i) (map_of futures i)) order"

text \<open>
  The loop over \<^verbatim>\<open>as_completed(future_to_batch)\<close>: \<^verbatim>\<open>future.result()\<close> returns the
  worker's result or raises the worker's exception, which the handler turns into a message.
\<close>

fun collect_results :: "(nat \<times> (py_exn + ProcessingResult)) list \<Rightarrow> totals \<Rightarrow> totals" where
  "collect_results [] acc = acc"
| "collect_results ((batch_num, outcome) # rest) acc =
     collect_results rest
       (case outcome of
          Inr result \<Rightarrow> add_result acc result
        | Inl e \<Rightarrow>
            acc\<lparr>all_errors := all_errors acc
                   @ [''Batch '' @ str_nat batch_num @ '' error: '' @ exn_msg e]\<rparr>)"

text \<open>
  \<^verbatim>\<open>ThreadPoolExecutor(max_workers=n)\<close> raises \<^verbatim>\<open>ValueError\<close> for \<open>n \<le> 0\<close>, outside any
  handler of the function.
\<close>

definition process_file_parallel ::
  "'db platform \<Rightarrow> schedule \<Rightarrow> 'db DataProcessor \<Rightarrow> string \<Rightarrow> 'db \<Rightarrow> (py_exn + ProcessingResult) \<times> 'db" where
  "process_file_parallel pf sched self file_path db =
     (case read_csv_batches pf self file_path of
        Inl e \<Rightarrow> (Inl e, db)
      | Inr batches \<Rightarrow>
          if max_workers self \<le> 0
          then (Inl (Exn ValueError ''max_workers must be greater than 0''), db)
          else (case run_workers pf self batches (exec_order sched) db of
                  (futures, db') \<Rightarrow>
                    (Inr (summary (collect_results (as_completed futures (completion_order sched))
                                     no_totals)), db')))"

section \<open>The entry point\<close>

text \<open>
  \<^verbatim>\<open>main\<close> returns the exit code. The whole run is under \<^verbatim>\<open>except Exception\<close>, which
  returns 1. Logging and \<^verbatim>\<open>processor.close()\<close> are taken not to raise.
\<close>

definition main ::
  "'db platform \<Rightarrow> schedule \<Rightarrow> string list \<Rightarrow> (string \<rightharpoonup> string) \<Rightarrow> 'db \<Rightarrow> int" where
  "main pf sched argv environ db =
     (if length argv < 2 then 1
      else let input_file = argv ! 1
           in if \<not> path_exists pf input_file then 1
              else (case environ ''DATABASE_URL'' of
                      None \<Rightarrow> 1
                    | Some url \<Rightarrow>
                        if url = [] then 1
                        else (case snd (DataProcessor_init pf url (Some 1000) (Some 4)) of
                                Inl e \<Rightarrow> 1
                              | Inr processor \<Rightarrow>
                                  (case fst (process_file_parallel pf sched processor input_file db) of
                                     Inl e \<Rightarrow> 1
                                   | Inr result \<Rightarrow> if success result then 0 else 1))))"

section \<open>Example inputs\<close>

text \<open>
  The record of the specification's example, a record whose value is not a number, one whose
  value is an integer beyond the range of a double, and a three-row file.
\<close>

definition example_record :: pyrecord where
  "example_record = [''name'' \<mapsto> PStr '' bob '', ''value'' \<mapsto> PStr ''3.14'', ''id'' \<mapsto> PInt 1]"

definition example_processed :: pyrecord where
  "example_processed = [''name'' \<mapsto> PStr ''Bob'', ''value'' \<mapsto> PFloat (Finite (157 / 50)),
                        ''id'' \<mapsto> PInt 1, ''processed'' \<mapsto> PBool True]"

definition text_record :: pyrecord where
  "text_record = [''id'' \<mapsto> PInt 2, ''name'' \<mapsto> PStr ''x'', ''value'' \<mapsto> PStr ''abc'']"

definition overflow_record :: pyrecord where
  "overflow_record = [''id'' \<mapsto> PInt 1, ''name'' \<mapsto> PStr ''x'', ''value'' \<mapsto> PInt (10 ^ 400)]"

definition example_rows :: "pyrecord list" where
  "example_rows = [example_record, text_record, example_record]"

text \<open>
  A database that accepts its first transaction and refuses every later one; its state
  counts the transactions.
\<close>

definition example_engine :: "nat engine" where
  "example_engine db batch =
     (if db = 0 then (None, Suc db)
      else (Some (Exn (LibraryError ''OperationalError'') ''connection refused''), Suc db))"

text \<open>
  A platform with three paths: \<^verbatim>\<open>input.csv\<close> holds the three rows, \<^verbatim>\<open>clean.csv\<close> one
  valid row, and \<^verbatim>\<open>bad.csv\<close> exists but does not parse. Its \<^verbatim>\<open>create_engine\<close> accepts
  one URL and refuses every other string, as SQLAlchemy refuses a string that is not a URL.
\<close>

definition example_platform :: "nat platform" where
  "example_platform =
     \<lparr>float_repr = (\<lambda>f. ''nan''),
      path_exists = (\<lambda>p. p = ''input.csv'' \<or> p = ''clean.csv'' \<or> p = ''bad.csv''),
      read_csv = (\<lambda>p. if p = ''input.csv'' then Inr example_rows
                       else if p = ''clean.csv'' then Inr [example_record]
                       else Inl (Exn (LibraryError ''ParserError'') ''Error tokenizing data'')),
      create_engine = (\<lambda>url. if url = ''sqlite://'' then Inr example_engine
                               else Inl (Exn (LibraryError ''ArgumentError'')
                                           ''Could not parse SQLAlchemy URL from given URL string''))\<rparr>"

definition example_processor :: "nat DataProcessor" where
  "example_processor = \<lparr>db_url = ''sqlite://'', batch_size = 2, max_workers = 1, engine = example_engine\<rparr>"

text \<open>The two batches of \<^verbatim>\<open>input.csv\<close> for a batch size of 2.\<close>

definition example_batches :: "dataframe list" where
  "example_batches = [[(0, example_record), (1, text_record)], [(2, example_record)]]"

text \<open>
  A run of the pool on two batches, in which the second future is handed back first, and the
  run on one batch.
\<close>

definition example_schedule :: schedule where
  "example_schedule = \<lparr>exec_order = [0, 1], completion_order = [1, 0]\<rparr>"

definition single_schedule :: schedule where
  "single_schedule = \<lparr>exec_order = [0], completion_order = [0]\<rparr>"

text \<open>The processor that \<open>main\<close> builds on the example platform.\<close>

definition main_processor :: "nat DataProcessor" where
  "main_processor = \<lparr>db_url = ''sqlite://'', batch_size = 1000, max_workers = 4, engine = example_engine\<rparr>"

section \<open>Validation and transformation of one record\<close>

lemmas string_tables = is_space_def is_lower_def is_upper_def to_upper_def to_lower_def
  lower_letters_def upper_letters_def is_digit_def digit_chars_def digit_val_def

lemmas float_parser = float_of_str_def float_strip_def is_float_space_def split_sign_def floatnumber_def exponent_def
  nat_of_digits_def pow10_def round_double_def double_limit_def

lemma has_required_fields:
  "list_all (\<lambda>field. record field \<noteq> None) required_fields
   \<longleftrightarrow> record ''id'' \<noteq> None \<and> record ''name'' \<noteq> None \<and> record ''value'' \<noteq> None"
  by (simp add: required_fields_def)

text \<open>The three outcomes of \<open>validate_record\<close>, each characterised.\<close>

lemma validate_record_True:
  "validate_record record = Inr True
   \<longleftrightarrow> record ''id'' \<noteq> None \<and> record ''name'' \<noteq> None
       \<and> (\<exists>v f. record ''value'' = Some v \<and> py_float v = Inr f)"
  unfolding validate_record_def has_required_fields getitem_def
  by (auto split: option.splits sum.splits)

lemma validate_record_False:
  "validate_record record = Inr False
   \<longleftrightarrow> record ''id'' = None \<or> record ''name'' = None \<or> record ''value'' = None
       \<or> (\<exists>v e. record ''value'' = Some v \<and> py_float v = Inl e
                  \<and> (exn_class e = ValueError \<or> exn_class e = TypeError))"
  unfolding validate_record_def has_required_fields getitem_def
  by (auto split: option.splits sum.splits)

lemma validate_record_raises:
  "validate_record record = Inl e
   \<longleftrightarrow> record ''id'' \<noteq> None \<and> record ''name'' \<noteq> None
       \<and> (\<exists>v. record ''value'' = Some v \<and> py_float v = Inl e
                \<and> exn_class e \<noteq> ValueError \<and> exn_class e \<noteq> TypeError)"
  unfolding validate_record_def has_required_fields getitem_def
  by (auto split: option.splits sum.splits)

lemma py_float_raises:
  "py_float v = Inl e \<Longrightarrow>
     exn_class e = ValueError \<or> exn_class e = TypeError
     \<or> (\<exists>i. v = PInt i \<and> double_limit \<le> \<bar>of_int i\<bar> \<and> exn_class e = OverflowError)"
  by (cases v) (auto split: if_splits option.splits)

text \<open>
  So \<open>validate_record\<close> raises for exactly one kind of record: all three fields are there
  and the value is an \<^verbatim>\<open>int\<close> too large for a double.
\<close>

lemma validate_raises_iff:
  "(\<exists>e. validate_record record = Inl e)
   \<longleftrightarrow> record ''id'' \<noteq> None \<and> record ''name'' \<noteq> None
       \<and> (\<exists>i. record ''value'' = Some (PInt i) \<and> double_limit \<le> \<bar>of_int i\<bar>)"
  unfolding validate_record_raises
  by (auto dest: py_float_raises)

lemma float_of_str_314: "float_of_str ''3.14'' = Some (Finite (157 / 50))"
  by (simp add: float_parser string_tables)

lemma float_of_str_abc: "float_of_str ''abc'' = None"
  by (simp add: float_parser string_tables)

text \<open>The separators that \<^verbatim>\<open>str.strip\<close> removes are not whitespace for \<^verbatim>\<open>float\<close>.\<close>

lemma float_of_str_separators: "float_of_str [CHR 0x1F, CHR ''7'', CHR 0x1C] = None"
  by (simp add: float_parser string_tables)

lemma title_strip_bob: "title (strip '' bob '') = ''Bob''"
  by (simp add: title_def strip_def string_tables)

lemma validate_example_record: "validate_record example_record = Inr True"
  by (simp add: validate_record_True example_record_def float_of_str_314)

lemma validate_text_record: "validate_record text_record = Inr False"
  by (simp add: validate_record_False text_record_def float_of_str_abc)

lemma validate_spec_example:
  "validate_record [''id'' \<mapsto> PInt 1, ''name'' \<mapsto> PStr ''x'', ''value'' \<mapsto> PStr ''3.14''] = Inr True"
  by (simp add: validate_record_True float_of_str_314)

text \<open>
  Claim C4. \<open>validate_record\<close> is to return true exactly for a record that has the fields
  \<^verbatim>\<open>id\<close>, \<^verbatim>\<open>name\<close> and \<^verbatim>\<open>value\<close> and whose value converts to a float, and to return
  false, never raise, on any other record. The first half holds (\<open>validate_record_True\<close>,
  with the two examples \<open>validate_text_record\<close> and \<open>validate_spec_example\<close>). The second
  half fails: for the record \<^verbatim>\<open>{id: 1, name: "x", value: 10**400}\<close> the call
  \<^verbatim>\<open>float(record['value'])\<close> raises \<^verbatim>\<open>OverflowError\<close>, which the handler for
  \<^verbatim>\<open>(ValueError, TypeError)\<close> does not take, so the function raises.
\<close>

theorem validate_record_overflow:
  "validate_record overflow_record = Inl (Exn OverflowError ''int too large to convert to float'')"
  by (simp add: validate_record_def required_fields_def getitem_def overflow_record_def double_limit_def)

lemma process_record_after_validation:
  "validate_record record = Inr True \<Longrightarrow> \<exists>p. process_record fr record = Inr p"
  unfolding validate_record_True process_record_def
  by (auto simp: Let_def)

text \<open>
  Claim C5. For a record that passes validation, \<open>process_record\<close> returns the record with
  \<^verbatim>\<open>name\<close> replaced by its text, stripped and title-cased, \<^verbatim>\<open>value\<close> replaced by its
  float, \<^verbatim>\<open>processed\<close> set to true, and every other field as it was. It does not raise.
\<close>

theorem process_record_valid:
  assumes "validate_record record = Inr True"
  shows "\<exists>n v f. record ''name'' = Some n \<and> record ''value'' = Some v \<and> py_float v = Inr f \<and>
           process_record fr record =
             Inr (record(''name'' \<mapsto> PStr (title (strip (py_str fr n))),
                         ''value'' \<mapsto> PFloat f, ''processed'' \<mapsto> PBool True))"
  using assms unfolding validate_record_True process_record_def
  by (auto simp: Let_def)

text \<open>
  The example of the specification: \<^verbatim>\<open>{name: " bob ", value: "3.14", id: 1}\<close> becomes
  \<^verbatim>\<open>{name: "Bob", value: 3.14, id: 1, processed: true}\<close>.
\<close>

theorem process_record_valid_witness:
  "validate_record example_record = Inr True
   \<and> process_record (float_repr example_platform) example_record = Inr example_processed"
proof -
  have v: "validate_record example_record = Inr True"
    by (rule validate_example_record)
  obtain n x f where n: "example_record ''name'' = Some n"
    and x: "example_record ''value'' = Some x" and f: "py_float x = Inr f"
    and p: "process_record (float_repr example_platform) example_record =
              Inr (example_record(''name'' \<mapsto> PStr (title (strip (py_str (float_repr example_platform) n))),
                                  ''value'' \<mapsto> PFloat f, ''processed'' \<mapsto> PBool True))"
    using process_record_valid [OF v, of "float_repr example_platform"] by blast
  from n have n': "n = PStr '' bob ''" by (simp add: example_record_def)
  from x have "x = PStr ''3.14''" by (simp add: example_record_def)
  with f have f': "f = Finite (157 / 50)" by (simp add: float_of_str_314)
  have "example_record(''name'' \<mapsto> PStr ''Bob'', ''value'' \<mapsto> PFloat (Finite (157 / 50)),
                       ''processed'' \<mapsto> PBool True) = example_processed"
    by (rule ext) (simp add: example_record_def example_processed_def)
  with p n' f' v show ?thesis by (simp add: title_strip_bob)
qed

section \<open>The batch processor\<close>

text \<open>Each turn of the loop counts its row once, as processed or as failed, and the processed
  rows are the ones kept for storage.\<close>

lemma process_row_count:
  "n_processed (process_row fr st row) + n_failed (process_row fr st row)
     = n_processed st + n_failed st + 1"
  by (cases row) (simp add: process_row_def record_error_def split: sum.splits)

lemma process_row_valid:
  "n_processed (process_row fr st row) - int (length (valid_records (process_row fr st row)))
     = n_processed st - int (length (valid_records st))"
  by (cases row) (simp add: process_row_def record_error_def split: sum.splits)

lemma foldl_process_row_count:
  "n_processed (foldl (process_row fr) st df) + n_failed (foldl (process_row fr) st df)
     = n_processed st + n_failed st + int (length df)"
  by (induction df arbitrary: st) (simp_all add: process_row_count)

lemma foldl_process_row_valid:
  "n_processed (foldl (process_row fr) st df) - int (length (valid_records (foldl (process_row fr) st df)))
     = n_processed st - int (length (valid_records st))"
  by (induction df arbitrary: st) (simp_all add: process_row_valid)

lemma process_rows_count:
  "n_processed (process_rows fr df) + n_failed (process_rows fr df) = int (length df)"
  using foldl_process_row_count [of fr initial_state df]
  by (simp add: process_rows_def initial_state_def)

lemma process_rows_valid:
  "n_processed (process_rows fr df) = int (length (valid_records (process_rows fr df)))"
  using foldl_process_row_valid [of fr initial_state df]
  by (simp add: process_rows_def initial_state_def)

lemma store_batch_raises:
  "store_batch self batch db = (Inl e, db') \<Longrightarrow> exn_class e = DatabaseError"
  by (auto simp: store_batch_def split: if_splits prod.splits option.splits)

lemma store_batch_cases:
  "batch \<noteq> [] \<Longrightarrow> store_batch self batch db =
     (case engine self db batch of
        (None, db') \<Rightarrow> (Inr (int (length batch)), db')
      | (Some e, db') \<Rightarrow> (Inl (Exn DatabaseError (''Failed to store batch: '' @ exn_msg e)), db'))"
  by (simp add: store_batch_def)

lemma process_batch_stored:
  assumes "valid_records (process_rows (float_repr pf) df) \<noteq> []"
    and "engine self db (valid_records (process_rows (float_repr pf) df)) = (None, db')"
  shows "process_batch pf self df db =
           (Inr \<lparr>success = (n_failed (process_rows (float_repr pf) df) = 0),
                 records_processed = n_processed (process_rows (float_repr pf) df),
                 records_failed = n_failed (process_rows (float_repr pf) df),
                 errors = errs (process_rows (float_repr pf) df)\<rparr>, db')"
  using assms by (simp add: process_batch_def Let_def store_batch_cases)

lemma process_batch_nothing_valid:
  assumes "valid_records (process_rows (float_repr pf) df) = []"
  shows "process_batch pf self df db =
           (Inr \<lparr>success = (n_failed (process_rows (float_repr pf) df) = 0),
                 records_processed = n_processed (process_rows (float_repr pf) df),
                 records_failed = n_failed (process_rows (float_repr pf) df),
                 errors = errs (process_rows (float_repr pf) df)\<rparr>, db)"
  using assms by (simp add: process_batch_def Let_def)

lemma process_batch_storage_failed:
  assumes "valid_records (process_rows (float_repr pf) df) \<noteq> []"
    and "engine self db (valid_records (process_rows (float_repr pf) df)) = (Some e, db')"
  shows "process_batch pf self df db =
           (Inr \<lparr>success = (n_failed (process_rows (float_repr pf) df)
                              + int (length (valid_records (process_rows (float_repr pf) df))) = 0),
                 records_processed = n_processed (process_rows (float_repr pf) df)
                              - int (length (valid_records (process_rows (float_repr pf) df))),
                 records_failed = n_failed (process_rows (float_repr pf) df)
                              + int (length (valid_records (process_rows (float_repr pf) df))),
                 errors = errs (process_rows (float_repr pf) df)
                              @ [''Database storage failed: Failed to store batch: '' @ exn_msg e]\<rparr>, db')"
  using assms by (simp add: process_batch_def Let_def store_batch_cases)

lemma process_batch_total:
  "\<exists>r db'. process_batch pf self df db = (Inr r, db')
     \<and> records_processed r + records_failed r = int (length df)
     \<and> success r = (records_failed r = 0)"
proof (cases "valid_records (process_rows (float_repr pf) df) = []")
  case True
  then show ?thesis
    using process_rows_count [of "float_repr pf" df]
    by (simp add: process_batch_nothing_valid)
next
  case False
  obtain out db' where eng: "engine self db (valid_records (process_rows (float_repr pf) df)) = (out, db')"
    by (cases "engine self db (valid_records (process_rows (float_repr pf) df))")
  show ?thesis
  proof (cases out)
    case None
    with False eng show ?thesis
      using process_rows_count [of "float_repr pf" df]
      by (simp add: process_batch_stored)
  next
    case (Some e)
    with False eng show ?thesis
      using process_rows_count [of "float_repr pf" df]
      by (simp add: process_batch_storage_failed)
  qed
qed

lemma process_record_example:
  "process_record fr example_record = Inr example_processed"
proof -
  have "example_record(''name'' \<mapsto> PStr ''Bob'', ''value'' \<mapsto> PFloat (Finite (157 / 50)),
                       ''processed'' \<mapsto> PBool True) = example_processed"
    by (rule ext) (simp add: example_record_def example_processed_def)
  then show ?thesis
    by (simp add: process_record_def example_record_def float_of_str_314 title_strip_bob)
qed

lemma process_rows_example:
  "process_rows fr [(0, example_record), (1, text_record)] =
     \<lparr>n_processed = 1, n_failed = 1, errs = [''Validation failed for record 1''],
      valid_records = [example_processed]\<rparr>"
  by (simp add: process_rows_def process_row_def initial_state_def validate_example_record
      validate_text_record process_record_example str_nat.simps digit_chars_def)

lemma process_row_overflow:
  "process_row fr initial_state (0, overflow_record) =
     \<lparr>n_processed = 0, n_failed = 1,
      errs = [''Error processing record 0: int too large to convert to float''],
      valid_records = []\<rparr>"
  by (simp add: process_row_def record_error_def initial_state_def validate_record_def
      required_fields_def getitem_def overflow_record_def double_limit_def str_nat.simps digit_chars_def)

text \<open>
  Claim C3. When the storage call of a batch fails, \<open>process_batch\<close> returns a result in
  which the rows counted as processed by the loop (the valid ones, \<open>process_rows_valid\<close>)
  are taken from the processed count and added to the failed count, one message
  \<^verbatim>\<open>Database storage failed: ...\<close> is appended to the messages of the loop, and the
  success flag says whether the failed count is zero. So the processed count is zero and
  the failed count is the number of rows.
\<close>

theorem process_batch_storage_failure:
  assumes "st = process_rows (float_repr pf) df"
    and "valid_records st \<noteq> []"
    and "engine self db (valid_records st) = (Some e, db')"
  shows "\<exists>r. process_batch pf self df db = (Inr r, db')
           \<and> records_processed r = n_processed st - int (length (valid_records st))
           \<and> records_failed r = n_failed st + int (length (valid_records st))
           \<and> errors r = errs st @ [''Database storage failed: Failed to store batch: '' @ exn_msg e]
           \<and> success r = (records_failed r = 0)
           \<and> records_processed r = 0
           \<and> records_failed r = int (length df)"
  using assms process_rows_count [of "float_repr pf" df] process_rows_valid [of "float_repr pf" df]
  by (simp add: process_batch_storage_failed)

theorem process_batch_storage_failure_witness:
  "valid_records (process_rows (float_repr example_platform) [(0, example_record), (1, text_record)]) \<noteq> []
   \<and> engine example_processor 1
        (valid_records (process_rows (float_repr example_platform) [(0, example_record), (1, text_record)]))
       = (Some (Exn (LibraryError ''OperationalError'') ''connection refused''), 2)
   \<and> process_batch example_platform example_processor [(0, example_record), (1, text_record)] 1
       = (Inr \<lparr>success = False, records_processed = 0, records_failed = 2,
               errors = [''Validation failed for record 1'',
                         ''Database storage failed: Failed to store batch: connection refused'']\<rparr>, 2)"
proof -
  let ?df = "[(0, example_record), (1, text_record)] :: dataframe"
  let ?st = "process_rows (float_repr example_platform) ?df"
  let ?e = "Exn (LibraryError ''OperationalError'') ''connection refused''"
  have v: "valid_records ?st \<noteq> []"
    unfolding process_rows_example by simp
  have e: "engine example_processor 1 (valid_records ?st) = (Some ?e, 2)"
    by (simp add: example_processor_def example_engine_def)
  obtain r where r: "process_batch example_platform example_processor ?df 1 = (Inr r, 2)
           \<and> records_processed r = n_processed ?st - int (length (valid_records ?st))
           \<and> records_failed r = n_failed ?st + int (length (valid_records ?st))
           \<and> errors r = errs ?st @ [''Database storage failed: Failed to store batch: '' @ exn_msg ?e]
           \<and> success r = (records_failed r = 0)
           \<and> records_processed r = 0
           \<and> records_failed r = int (length ?df)"
    using process_batch_storage_failure [OF refl v e] ..
  then have b: "process_batch example_platform example_processor ?df 1 = (Inr r, 2)"
    and p: "records_processed r = 0" and f: "records_failed r = int (length ?df)"
    and m: "errors r = errs ?st @ [''Database storage failed: Failed to store batch: '' @ exn_msg ?e]"
    and s: "success r = (records_failed r = 0)"
    by blast+
  from p f m s have "r = \<lparr>success = False, records_processed = 0, records_failed = 2,
               errors = [''Validation failed for record 1'',
                         ''Database storage failed: Failed to store batch: connection refused'']\<rparr>"
    unfolding process_rows_example by (cases r) simp
  with b v e show ?thesis by (simp only: simp_thms)
qed

text \<open>
  Claim C10. \<open>process_batch\<close> always returns a result. An exception of \<open>validate_record\<close>
  is taken by the handler of the loop, which counts one failed row and appends one message;
  \<open>process_record\<close> is called only on a validated record, where it does not raise; every
  turn of the loop counts its row once; and \<open>store_batch\<close> raises nothing but
  \<^verbatim>\<open>DatabaseError\<close>, which \<open>process_batch\<close> handles.
\<close>

theorem process_batch_never_raises:
  "(\<exists>r db'. process_batch pf self df db = (Inr r, db'))
   \<and> (validate_record rec = Inl e \<longrightarrow>
        process_row fr st (idx, rec) =
          st\<lparr>n_failed := n_failed st + 1,
             errs := errs st @ [''Error processing record '' @ str_nat idx @ '': '' @ exn_msg e]\<rparr>)
   \<and> (validate_record rec = Inr True \<longrightarrow> (\<exists>p. process_record fr rec = Inr p))
   \<and> n_processed (process_row fr st row) + n_failed (process_row fr st row)
        = n_processed st + n_failed st + 1
   \<and> (store_batch self batch db = (Inl e', db'') \<longrightarrow> exn_class e' = DatabaseError)"
proof (intro conjI impI)
  show "\<exists>r db'. process_batch pf self df db = (Inr r, db')"
    using process_batch_total [of pf self df db] by blast
next
  assume "validate_record rec = Inl e"
  then show "process_row fr st (idx, rec) =
          st\<lparr>n_failed := n_failed st + 1,
             errs := errs st @ [''Error processing record '' @ str_nat idx @ '': '' @ exn_msg e]\<rparr>"
    by (simp add: process_row_def record_error_def)
next
  assume "validate_record rec = Inr True"
  then show "\<exists>p. process_record fr rec = Inr p"
    by (rule process_record_after_validation)
next
  show "n_processed (process_row fr st row) + n_failed (process_row fr st row)
        = n_processed st + n_failed st + 1"
    by (rule process_row_count)
next
  assume "store_batch self batch db = (Inl e', db'')"
  then show "exn_class e' = DatabaseError"
    by (rule store_batch_raises)
qed

theorem process_batch_never_raises_witness:
  "validate_record overflow_record = Inl (Exn OverflowError ''int too large to convert to float'')
   \<and> process_row (float_repr example_platform) initial_state (0, overflow_record) =
       initial_state\<lparr>n_failed := 1,
                     errs := [''Error processing record 0: int too large to convert to float'']\<rparr>
   \<and> validate_record example_record = Inr True
   \<and> (\<exists>p. process_record (float_repr example_platform) example_record = Inr p)
   \<and> store_batch example_processor [example_processed] 1
       = (Inl (Exn DatabaseError ''Failed to store batch: connection refused''), 2)
   \<and> exn_class (Exn DatabaseError ''Failed to store batch: connection refused'') = DatabaseError
   \<and> (\<exists>r db'. process_batch example_platform example_processor
                  [(0, overflow_record), (1, example_record)] 1 = (Inr r, db'))"
proof -
  let ?o = "Exn OverflowError ''int too large to convert to float''"
  let ?d = "Exn DatabaseError ''Failed to store batch: connection refused''"
  have o: "validate_record overflow_record = Inl ?o"
    by (simp add: validate_record_def required_fields_def getitem_def overflow_record_def
        double_limit_def)
  have s: "store_batch example_processor [example_processed] 1 = (Inl ?d, 2)"
    by (simp add: store_batch_def example_processor_def example_engine_def)
  note t1 = process_batch_never_raises
    [where pf = example_platform and self = example_processor
       and df = "[(0, overflow_record), (1, example_record)]" and db = 1
       and rec = overflow_record and e = ?o and fr = "float_repr example_platform"
       and st = initial_state and idx = 0 and row = "(0, overflow_record)"
       and batch = "[example_processed]" and e' = ?d and db'' = 2]
  note t2 = process_batch_never_raises
    [where pf = example_platform and self = example_processor
       and df = "[(0, overflow_record), (1, example_record)]" and db = 1
       and rec = example_record and e = ?o and fr = "float_repr example_platform"
       and st = initial_state and idx = 0 and row = "(0, example_record)"
       and batch = "[example_processed]" and e' = ?d and db'' = 2]
  from t1 o have "process_row (float_repr example_platform) initial_state (0, overflow_record) =
       initial_state\<lparr>n_failed := n_failed initial_state + 1,
                     errs := errs initial_state
                       @ [''Error processing record '' @ str_nat 0 @ '': '' @ exn_msg ?o]\<rparr>"
    by blast
  then have r: "process_row (float_repr example_platform) initial_state (0, overflow_record) =
       initial_state\<lparr>n_failed := 1,
                     errs := [''Error processing record 0: int too large to convert to float'']\<rparr>"
    by (simp add: initial_state_def str_nat.simps digit_chars_def)
  from t2 validate_example_record
  have p: "\<exists>p. process_record (float_repr example_platform) example_record = Inr p"
    by blast
  from t1 s have c: "exn_class ?d = DatabaseError"
    by blast
  from t1 have b: "\<exists>r db'. process_batch example_platform example_processor
                  [(0, overflow_record), (1, example_record)] 1 = (Inr r, db')"
    by blast
  from o r validate_example_record p s c b show ?thesis
    by (intro conjI)
qed

section \<open>The batch reader\<close>

lemma concat_chunks: "concat (chunks n xs) = xs"
proof (induction n xs rule: chunks.induct)
  case (1 n xs)
  show ?case
  proof (cases "n = 0 \<or> length xs \<le> n")
    case True
    then show ?thesis by (subst chunks.simps) simp
  next
    case False
    with 1 have "concat (chunks n (drop n xs)) = drop n xs" by simp
    with False show ?thesis by (subst chunks.simps) simp
  qed
qed

lemma chunks_one: "length xs \<le> n \<Longrightarrow> chunks n xs = [xs]"
  by (subst chunks.simps) simp

lemma chunks_two:
  assumes "0 < n" and "length xs = Suc n"
  shows "chunks n xs = [take n xs, drop n xs]"
proof -
  from assms have "chunks n xs = take n xs # chunks n (drop n xs)"
    by (subst chunks.simps) simp
  moreover from assms have "chunks n (drop n xs) = [drop n xs]"
    by (intro chunks_one) simp
  ultimately show ?thesis by simp
qed

lemma read_csv_batches_rows:
  assumes "read_csv_batches pf self path = Inr batches"
  shows "\<exists>rows. read_csv pf path = Inr rows \<and> path_exists pf path \<and> 0 < batch_size self
           \<and> concat batches = zip [0..<length rows] rows"
  using assms
  by (auto simp: read_csv_batches_def concat_chunks split: if_splits sum.splits)

lemma read_csv_batches_parsed:
  assumes "0 < batch_size self" and "path_exists pf path" and "read_csv pf path = Inr rows"
  shows "read_csv_batches pf self path
           = Inr (chunks (nat (batch_size self)) (zip [0..<length rows] rows))"
  using assms by (simp add: read_csv_batches_def)

text \<open>
  Claim C9. With a batch size above zero, a file of exactly that many records is read as
  one batch and a file of one record more as two batches, the second holding one record; no
  record is lost or reordered. The reader raises \<^verbatim>\<open>FileProcessingError\<close> when the path does
  not exist and when \<^verbatim>\<open>pd.read_csv\<close> raises.
\<close>

theorem read_csv_batches_boundary:
  assumes "0 < batch_size self"
  shows "(path_exists pf path \<and> read_csv pf path = Inr rows \<and> int (length rows) = batch_size self
            \<longrightarrow> (\<exists>b. read_csv_batches pf self path = Inr [b] \<and> map snd b = rows))
       \<and> (path_exists pf path \<and> read_csv pf path = Inr rows \<and> int (length rows) = batch_size self + 1
            \<longrightarrow> (\<exists>b1 b2. read_csv_batches pf self path = Inr [b1, b2]
                    \<and> int (length b1) = batch_size self \<and> length b2 = 1
                    \<and> map snd (b1 @ b2) = rows))
       \<and> (\<not> path_exists pf path
            \<longrightarrow> read_csv_batches pf self path
                  = Inl (Exn FileProcessingError (''File not found: '' @ path)))
       \<and> (path_exists pf path \<and> read_csv pf path = Inl e
            \<longrightarrow> read_csv_batches pf self path
                  = Inl (Exn FileProcessingError (''Failed to read CSV: '' @ exn_msg e)))"
proof (intro conjI impI)
  assume a: "path_exists pf path \<and> read_csv pf path = Inr rows \<and> int (length rows) = batch_size self"
  let ?df = "zip [0..<length rows] rows"
  from a have "length ?df \<le> nat (batch_size self)" by auto
  then have "chunks (nat (batch_size self)) ?df = [?df]" by (rule chunks_one)
  with a assms have "read_csv_batches pf self path = Inr [?df]"
    by (simp add: read_csv_batches_parsed)
  moreover have "map snd ?df = rows" by simp
  ultimately show "\<exists>b. read_csv_batches pf self path = Inr [b] \<and> map snd b = rows"
    by blast
next
  assume a: "path_exists pf path \<and> read_csv pf path = Inr rows \<and> int (length rows) = batch_size self + 1"
  let ?n = "nat (batch_size self)"
  let ?df = "zip [0..<length rows] rows"
  from a assms have n: "0 < ?n" and l: "length ?df = Suc ?n" by auto
  then have "chunks ?n ?df = [take ?n ?df, drop ?n ?df]" by (rule chunks_two)
  with a assms have r: "read_csv_batches pf self path = Inr [take ?n ?df, drop ?n ?df]"
    by (simp add: read_csv_batches_parsed)
  from l assms have "int (length (take ?n ?df)) = batch_size self" and "length (drop ?n ?df) = 1"
    by auto
  moreover have "map snd (take ?n ?df @ drop ?n ?df) = rows"
    by (simp only: append_take_drop_id) simp
  ultimately show "\<exists>b1 b2. read_csv_batches pf self path = Inr [b1, b2]
                    \<and> int (length b1) = batch_size self \<and> length b2 = 1
                    \<and> map snd (b1 @ b2) = rows"
    using r by blast
next
  assume "\<not> path_exists pf path"
  then show "read_csv_batches pf self path
               = Inl (Exn FileProcessingError (''File not found: '' @ path))"
    by (simp add: read_csv_batches_def)
next
  assume "path_exists pf path \<and> read_csv pf path = Inl e"
  with assms show "read_csv_batches pf self path
               = Inl (Exn FileProcessingError (''Failed to read CSV: '' @ exn_msg e))"
    by (simp add: read_csv_batches_def)
qed

theorem read_csv_batches_boundary_witness:
  "0 < batch_size example_processor
   \<and> path_exists example_platform ''input.csv''
   \<and> read_csv example_platform ''input.csv'' = Inr example_rows
   \<and> int (length example_rows) = batch_size example_processor + 1
   \<and> (\<exists>b1 b2. read_csv_batches example_platform example_processor ''input.csv'' = Inr [b1, b2]
          \<and> int (length b1) = 2 \<and> length b2 = 1 \<and> map snd (b1 @ b2) = example_rows)
   \<and> int (length example_rows) = batch_size (example_processor\<lparr>batch_size := 3\<rparr>)
   \<and> (\<exists>b. read_csv_batches example_platform (example_processor\<lparr>batch_size := 3\<rparr>) ''input.csv''
              = Inr [b] \<and> map snd b = example_rows)
   \<and> \<not> path_exists example_platform ''missing.csv''
   \<and> read_csv_batches example_platform example_processor ''missing.csv''
       = Inl (Exn FileProcessingError ''File not found: missing.csv'')
   \<and> path_exists example_platform ''bad.csv''
   \<and> read_csv example_platform ''bad.csv''
       = Inl (Exn (LibraryError ''ParserError'') ''Error tokenizing data'')
   \<and> read_csv_batches example_platform example_processor ''bad.csv''
       = Inl (Exn FileProcessingError ''Failed to read CSV: Error tokenizing data'')"
proof -
  let ?three = "example_processor\<lparr>batch_size := 3\<rparr>"
  let ?parse = "Exn (LibraryError ''ParserError'') ''Error tokenizing data''"
  have b2: "0 < batch_size example_processor" and bs: "batch_size example_processor = 2"
    by (simp_all add: example_processor_def)
  have b3: "0 < batch_size ?three" by simp
  have x: "path_exists example_platform ''input.csv''"
    and r: "read_csv example_platform ''input.csv'' = Inr example_rows"
    and nx: "\<not> path_exists example_platform ''missing.csv''"
    and xb: "path_exists example_platform ''bad.csv''"
    and rb: "read_csv example_platform ''bad.csv'' = Inl ?parse"
    by (simp_all add: example_platform_def)
  have l2: "int (length example_rows) = batch_size example_processor + 1"
    and l3: "int (length example_rows) = batch_size ?three"
    by (simp_all add: example_rows_def example_processor_def)
  note t2 = read_csv_batches_boundary [OF b2, where pf = example_platform and rows = example_rows]
  note t3 = read_csv_batches_boundary [OF b3, where pf = example_platform and rows = example_rows
      and path = "''input.csv''" and e = ?parse]
  from t2 [where path = "''input.csv''" and e = ?parse] x r l2
  have two: "\<exists>b1 b2. read_csv_batches example_platform example_processor ''input.csv'' = Inr [b1, b2]
          \<and> int (length b1) = 2 \<and> length b2 = 1 \<and> map snd (b1 @ b2) = example_rows"
    unfolding bs by blast
  from t3 x r l3
  have one: "\<exists>b. read_csv_batches example_platform ?three ''input.csv'' = Inr [b]
          \<and> map snd b = example_rows"
    by blast
  from t2 [where path = "''missing.csv''" and e = ?parse] nx
  have missing: "read_csv_batches example_platform example_processor ''missing.csv''
       = Inl (Exn FileProcessingError ''File not found: missing.csv'')"
    by simp
  from t2 [where path = "''bad.csv''" and e = ?parse] xb rb
  have bad: "read_csv_batches example_platform example_processor ''bad.csv''
       = Inl (Exn FileProcessingError ''Failed to read CSV: Error tokenizing data'')"
    by simp
  from b2 x r l2 two l3 one nx missing xb rb bad show ?thesis
    by (intro conjI)
qed

section \<open>The constructor\<close>

lemma init_defaults:
  "DataProcessor_init pf url None m = DataProcessor_init pf url (Some 1000) m"
  "DataProcessor_init pf url b None = DataProcessor_init pf url b (Some 4)"
  by (simp_all add: DataProcessor_init_def)

text \<open>
  The constructor does not raise only for the three conditions it checks itself: on the
  example platform the string \<^verbatim>\<open>not a url\<close> is not empty and the sizes are the defaults, yet
  the call of \<^verbatim>\<open>create_engine\<close> raises and so does the constructor.
\<close>

theorem init_raises_counterexample:
  "\<not> (isl (snd (DataProcessor_init example_platform ''not a url'' (Some 1000) (Some 4)))
       \<longleftrightarrow> ''not a url'' = [] \<or> (1000 :: int) \<le> 0 \<or> (4 :: int) \<le> 0)"
  by (simp add: DataProcessor_init_def example_platform_def)

text \<open>
  Claim C8, amended. The batch size defaults to 1000 and the worker count to 4. The
  constructor raises \<^verbatim>\<open>ValueError\<close> before it has called anything (no engine created, nothing
  logged) exactly when the connection string is empty, the batch size is not above zero or
  the worker count is not above zero. When the three checks pass it calls
  \<^verbatim>\<open>create_engine\<close>: if that raises, the constructor raises the same exception; otherwise it
  logs one line and returns the processor with the given settings.
\<close>

theorem init_checks_then_engine:
  "DataProcessor_init pf url None None = DataProcessor_init pf url (Some 1000) (Some 4)
   \<and> ((\<exists>msg. DataProcessor_init pf url (Some bs) (Some mw) = ([], Inl (Exn ValueError msg)))
        \<longleftrightarrow> url = [] \<or> bs \<le> 0 \<or> mw \<le> 0)
   \<and> (url \<noteq> [] \<and> 0 < bs \<and> 0 < mw \<longrightarrow>
        (case create_engine pf url of
           Inl e \<Rightarrow> DataProcessor_init pf url (Some bs) (Some mw) = ([CreateEngine url], Inl e)
         | Inr eng \<Rightarrow>
             (\<exists>msg. DataProcessor_init pf url (Some bs) (Some mw)
                      = ([CreateEngine url, LogInfo msg],
                         Inr \<lparr>db_url = url, batch_size = bs, max_workers = mw, engine = eng\<rparr>))))"
  by (auto simp: DataProcessor_init_def split: sum.splits)

theorem init_checks_then_engine_witness:
  "DataProcessor_init example_platform ''sqlite://'' None None
     = ([CreateEngine ''sqlite://'', LogInfo ''DataProcessor initialized (batch_size=1000, workers=4)''],
        Inr \<lparr>db_url = ''sqlite://'', batch_size = 1000, max_workers = 4, engine = example_engine\<rparr>)
   \<and> DataProcessor_init example_platform ''sqlite://'' (Some 0) (Some 4)
     = ([], Inl (Exn ValueError ''batch_size must be positive''))
   \<and> DataProcessor_init example_platform ''not a url'' (Some 1000) (Some 4)
     = ([CreateEngine ''not a url''],
        Inl (Exn (LibraryError ''ArgumentError'') ''Could not parse SQLAlchemy URL from given URL string''))"
proof -
  note t = init_checks_then_engine [where pf = example_platform]
  have c: "create_engine example_platform ''sqlite://'' = Inr example_engine"
    by (simp add: example_platform_def)
  from t [of "''sqlite://''" 1000 4] c
  obtain msg where m: "DataProcessor_init example_platform ''sqlite://'' (Some 1000) (Some 4)
                      = ([CreateEngine ''sqlite://'', LogInfo msg],
                         Inr \<lparr>db_url = ''sqlite://'', batch_size = 1000, max_workers = 4,
                               engine = example_engine\<rparr>)"
    by auto
  have "fst (DataProcessor_init example_platform ''sqlite://'' (Some 1000) (Some 4))
          = [CreateEngine ''sqlite://'', LogInfo ''DataProcessor initialized (batch_size=1000, workers=4)'']"
    by (simp add: DataProcessor_init_def c str_int_def str_nat.simps digit_chars_def)
  with m have "msg = ''DataProcessor initialized (batch_size=1000, workers=4)''" by simp
  with m t [of "''sqlite://''" 1000 4]
  have a: "DataProcessor_init example_platform ''sqlite://'' None None
     = ([CreateEngine ''sqlite://'', LogInfo ''DataProcessor initialized (batch_size=1000, workers=4)''],
        Inr \<lparr>db_url = ''sqlite://'', batch_size = 1000, max_workers = 4, engine = example_engine\<rparr>)"
    by simp
  from t [of "''sqlite://''" 0 4]
  obtain msg' where "DataProcessor_init example_platform ''sqlite://'' (Some 0) (Some 4)
                      = ([], Inl (Exn ValueError msg'))"
    by auto
  moreover have "snd (DataProcessor_init example_platform ''sqlite://'' (Some 0) (Some 4))
                   = Inl (Exn ValueError ''batch_size must be positive'')"
    by (simp add: DataProcessor_init_def)
  ultimately have b: "DataProcessor_init example_platform ''sqlite://'' (Some 0) (Some 4)
     = ([], Inl (Exn ValueError ''batch_size must be positive''))"
    by simp
  have "create_engine example_platform ''not a url''
          = Inl (Exn (LibraryError ''ArgumentError'') ''Could not parse SQLAlchemy URL from given URL string'')"
    by (simp add: example_platform_def)
  with t [of "''not a url''" 1000 4]
  have "DataProcessor_init example_platform ''not a url'' (Some 1000) (Some 4)
     = ([CreateEngine ''not a url''],
        Inl (Exn (LibraryError ''ArgumentError'') ''Could not parse SQLAlchemy URL from given URL string''))"
    by simp
  with a b show ?thesis by (intro conjI)
qed

section \<open>The two drivers\<close>

lemma sum_list_lengths: "(\<Sum>b\<leftarrow>batches. int (length b)) = int (length (concat batches))"
  by (induction batches) simp_all

lemma foldl_add_result_processed:
  "total_processed (foldl add_result acc rs) = total_processed acc + (\<Sum>r\<leftarrow>rs. records_processed r)"
  by (induction rs arbitrary: acc) (simp_all add: add_result_def)

lemma foldl_add_result_failed:
  "total_failed (foldl add_result acc rs) = total_failed acc + (\<Sum>r\<leftarrow>rs. records_failed r)"
  by (induction rs arbitrary: acc) (simp_all add: add_result_def)

lemma foldl_add_result_errors:
  "all_errors (foldl add_result acc rs) = all_errors acc @ concat (map errors rs)"
  by (induction rs arbitrary: acc) (simp_all add: add_result_def)

lemma collect_results_returned:
  "list_all (\<lambda>x. \<not> isl (snd x)) fs \<Longrightarrow>
     collect_results fs acc = foldl add_result acc (map (projr \<circ> snd) fs)"
proof (induction fs arbitrary: acc)
  case Nil
  then show ?case by simp
next
  case (Cons x fs)
  obtain i out where x: "x = (i, out)" by (cases x)
  with Cons.prems obtain r where "out = Inr r" by (cases out) auto
  with x Cons show ?case by simp
qed

lemma run_workers_keys:
  "run_workers pf self batches order db = (fs, db') \<Longrightarrow>
     map fst fs = filter (\<lambda>i. i < length batches) order"
proof (induction order arbitrary: db fs db')
  case Nil
  then show ?case by simp
next
  case (Cons i order)
  show ?case
  proof (cases "i < length batches")
    case False
    with Cons show ?thesis by simp
  next
    case True
    obtain out db1 where b: "process_batch pf self (batches ! i) db = (out, db1)"
      by (cases "process_batch pf self (batches ! i) db")
    obtain fs1 db2 where w: "run_workers pf self batches order db1 = (fs1, db2)"
      by (cases "run_workers pf self batches order db1")
    from Cons.prems True b w have "fs = (i, out) # fs1" by simp
    with Cons.IH [OF w] True show ?thesis by simp
  qed
qed

lemma run_workers_returned:
  "run_workers pf self batches order db = (fs, db') \<Longrightarrow>
     list_all (\<lambda>x. \<not> isl (snd x) \<and>
                   records_processed (projr (snd x)) + records_failed (projr (snd x))
                     = int (length (batches ! fst x))) fs"
proof (induction order arbitrary: db fs db')
  case Nil
  then show ?case by simp
next
  case (Cons i order)
  show ?case
  proof (cases "i < length batches")
    case False
    with Cons show ?thesis by simp
  next
    case True
    obtain r db1 where b: "process_batch pf self (batches ! i) db = (Inr r, db1)"
      and c: "records_processed r + records_failed r = int (length (batches ! i))"
      using process_batch_total [of pf self "batches ! i" db] by blast
    obtain fs1 db2 where w: "run_workers pf self batches order db1 = (fs1, db2)"
      by (cases "run_workers pf self batches order db1")
    from Cons.prems True b w have "fs = (i, Inr r) # fs1" by simp
    with Cons.IH [OF w] c show ?thesis by simp
  qed
qed

lemma sequential_loop_run_workers:
  "run_workers pf self batches [k..<length batches] db = (fs, db') \<Longrightarrow>
     sequential_loop pf self (drop k batches) acc db
       = (Inr (foldl add_result acc (map (projr \<circ> snd) fs)), db')"
proof (induction "length batches - k" arbitrary: k db fs db' acc)
  case 0
  then show ?case by simp
next
  case (Suc m)
  then have k: "k < length batches" by simp
  then have u: "[k..<length batches] = k # [Suc k..<length batches]"
    by (rule upt_conv_Cons)
  from k have d: "drop k batches = batches ! k # drop (Suc k) batches"
    by (rule Cons_nth_drop_Suc [symmetric])
  obtain r db1 where b: "process_batch pf self (batches ! k) db = (Inr r, db1)"
    using process_batch_total [of pf self "batches ! k" db] by blast
  obtain fs1 db2 where w: "run_workers pf self batches [Suc k..<length batches] db1 = (fs1, db2)"
    by (cases "run_workers pf self batches [Suc k..<length batches] db1")
  from Suc.prems u k b w have f: "fs = (k, Inr r) # fs1" and "db' = db2" by simp_all
  from Suc.hyps(2) have "m = length batches - Suc k" by simp
  from Suc.hyps(1) [OF this w]
  have "sequential_loop pf self (drop (Suc k) batches) (add_result acc r) db1
          = (Inr (foldl add_result (add_result acc r) (map (projr \<circ> snd) fs1)), db2)" .
  with d b f \<open>db' = db2\<close> show ?case by simp
qed

lemma as_completed_map:
  assumes "set order \<subseteq> fst ` set fs"
  shows "as_completed fs order = map (\<lambda>i. (i, the (map_of fs i))) order"
  using assms
proof (induction order)
  case Nil
  then show ?case by (simp add: as_completed_def)
next
  case (Cons i order)
  then have "i \<in> fst ` set fs" by simp
  then obtain out where "map_of fs i = Some out"
    by (cases "map_of fs i") (auto simp: map_of_eq_None_iff)
  with Cons show ?case by (simp add: as_completed_def)
qed

lemma as_completed_keys:
  "distinct (map fst fs) \<Longrightarrow> as_completed fs (map fst fs) = fs"
proof (induction fs)
  case Nil
  then show ?case by (simp add: as_completed_def)
next
  case (Cons x fs)
  obtain i out where x: "x = (i, out)" by (cases x)
  with Cons.prems have i: "i \<notin> fst ` set fs" and d: "distinct (map fst fs)" by auto
  have "List.map_filter (\<lambda>j. map_option (Pair j) (map_of ((i, out) # fs) j)) (map fst fs)
        = List.map_filter (\<lambda>j. map_option (Pair j) (map_of fs j)) (map fst fs)"
    unfolding map_filter_def using i
    by (intro arg_cong [where f = "map _"] filter_cong map_cong refl) auto
  with Cons.IH [OF d] x show ?case by (simp add: as_completed_def)
qed

lemma sum_list_arrangement:
  fixes g :: "nat \<Rightarrow> 'a::comm_monoid_add"
  assumes "sort order = [0..<n]"
  shows "(\<Sum>i\<leftarrow>order. g i) = (\<Sum>i\<leftarrow>[0..<n]. g i)"
proof -
  from assms have "set order = set [0..<n]" and "distinct order"
    by (metis set_sort, metis distinct_sort distinct_upt)
  then show ?thesis
    by (simp add: sum_list_distinct_conv_sum_set)
qed

lemma arrangement_set: "sort order = [0..<n] \<Longrightarrow> set order = {0..<n}"
  by (metis set_sort set_upt)

lemma arrangement_distinct: "sort order = [0..<n] \<Longrightarrow> distinct order"
  by (metis distinct_sort distinct_upt)

lemma fifo_order_sorted: "fifo_order 1 order \<Longrightarrow> sorted order"
proof (induction order)
  case Nil
  then show ?case by simp
next
  case (Cons j later)
  then have "filter (\<lambda>i. i < j) later = []" and "fifo_order 1 later" by simp_all
  then have "\<forall>i\<in>set later. j \<le> i" and "sorted later"
    using Cons.IH by (auto simp: filter_empty_conv)
  then show ?case by simp
qed

lemma one_worker_order:
  assumes "sort order = [0..<n]" and "fifo_order 1 order"
  shows "order = [0..<n]"
  using assms fifo_order_sorted [of order] by (simp add: sorted_sort_id)

lemma sum_list_batches:
  "(\<Sum>i\<leftarrow>[0..<length batches]. int (length (batches ! i))) = int (length (concat batches))"
proof -
  have "map (\<lambda>i. int (length (batches ! i))) [0..<length batches]
          = map (\<lambda>b. int (length b)) (map ((!) batches) [0..<length batches])"
    by simp
  also have "\<dots> = map (\<lambda>b. int (length b)) batches"
    by (simp only: map_nth)
  finally show ?thesis by (simp only: sum_list_lengths)
qed

text \<open>
  The totals of a run of the pool: every batch number stands once in both orders, so the
  loop over the futures adds the result of every batch once.
\<close>

lemma pool_totals:
  fixes fs :: "(nat \<times> (py_exn + ProcessingResult)) list"
  defines "res \<equiv> \<lambda>i. projr (the (map_of fs i))"
  assumes w: "run_workers pf self batches order db = (fs, db')"
    and e: "sort order = [0..<length batches]"
    and c: "sort done_order = [0..<length batches]"
  shows "\<forall>i<length batches.
           records_processed (res i) + records_failed (res i) = int (length (batches ! i))"
    and "collect_results (as_completed fs done_order) acc
           = foldl add_result acc (map res done_order)"
    and "total_processed (collect_results (as_completed fs done_order) acc)
           = total_processed acc + (\<Sum>i\<leftarrow>[0..<length batches]. records_processed (res i))"
    and "total_failed (collect_results (as_completed fs done_order) acc)
           = total_failed acc + (\<Sum>i\<leftarrow>[0..<length batches]. records_failed (res i))"
proof -
  from e have so: "set order = {0..<length batches}" by (rule arrangement_set)
  from c have sc: "set done_order = {0..<length batches}" by (rule arrangement_set)
  from so have "filter (\<lambda>i. i < length batches) order = order"
    by (simp add: filter_id_conv)
  with run_workers_keys [OF w] have keys: "map fst fs = order" by simp
  then have img: "fst ` set fs = {0..<length batches}"
    using so by (metis set_map)
  have ok: "list_all (\<lambda>x. \<not> isl (snd x) \<and>
                 records_processed (projr (snd x)) + records_failed (projr (snd x))
                   = int (length (batches ! fst x))) fs"
    using w by (rule run_workers_returned)
  have mem: "(i, the (map_of fs i)) \<in> set fs" if "i < length batches" for i
  proof -
    from that img have "i \<in> fst ` set fs" by simp
    then obtain out where "map_of fs i = Some out"
      by (cases "map_of fs i") (auto simp: map_of_eq_None_iff)
    then show ?thesis by (simp add: map_of_SomeD)
  qed
  have each: "\<not> isl (the (map_of fs i)) \<and>
              records_processed (res i) + records_failed (res i) = int (length (batches ! i))"
    if "i < length batches" for i
    using ok mem [OF that] unfolding res_def list_all_iff by fastforce
  then show "\<forall>i<length batches.
           records_processed (res i) + records_failed (res i) = int (length (batches ! i))"
    by blast
  have "as_completed fs done_order = map (\<lambda>i. (i, the (map_of fs i))) done_order"
    using sc img by (intro as_completed_map) simp
  moreover have "list_all (\<lambda>x. \<not> isl (snd x)) (map (\<lambda>i. (i, the (map_of fs i))) done_order)"
    using each sc by (simp add: list_all_iff)
  ultimately show col: "collect_results (as_completed fs done_order) acc
                          = foldl add_result acc (map res done_order)"
    by (simp add: collect_results_returned comp_def res_def)
  have "total_processed (collect_results (as_completed fs done_order) acc)
          = total_processed acc + (\<Sum>i\<leftarrow>done_order. records_processed (res i))"
    by (simp add: col foldl_add_result_processed comp_def)
  then show "total_processed (collect_results (as_completed fs done_order) acc)
          = total_processed acc + (\<Sum>i\<leftarrow>[0..<length batches]. records_processed (res i))"
    by (simp only: sum_list_arrangement [OF c])
  have "total_failed (collect_results (as_completed fs done_order) acc)
          = total_failed acc + (\<Sum>i\<leftarrow>done_order. records_failed (res i))"
    by (simp add: col foldl_add_result_failed comp_def)
  then show "total_failed (collect_results (as_completed fs done_order) acc)
          = total_failed acc + (\<Sum>i\<leftarrow>[0..<length batches]. records_failed (res i))"
    by (simp only: sum_list_arrangement [OF c])
qed

lemma sum_list_results:
  assumes "\<forall>i<length batches.
             records_processed (res i) + records_failed (res i) = int (length (batches ! i))"
  shows "(\<Sum>i\<leftarrow>[0..<length batches]. records_processed (res i))
           + (\<Sum>i\<leftarrow>[0..<length batches]. records_failed (res i)) = int (length (concat batches))"
proof -
  have "(\<Sum>i\<leftarrow>[0..<length batches]. records_processed (res i))
           + (\<Sum>i\<leftarrow>[0..<length batches]. records_failed (res i))
        = (\<Sum>i\<leftarrow>[0..<length batches]. records_processed (res i) + records_failed (res i))"
    by (simp add: sum_list_addf)
  also have "\<dots> = (\<Sum>i\<leftarrow>[0..<length batches]. int (length (batches ! i)))"
    using assms by (intro arg_cong [where f = sum_list] map_cong refl) simp
  finally show ?thesis by (simp only: sum_list_batches)
qed

text \<open>The sequential loop is the pool run in the order of the batches.\<close>

lemma sequential_loop_pool:
  assumes "run_workers pf self batches [0..<length batches] db = (fs, db')"
  shows "sequential_loop pf self batches acc db
           = (Inr (collect_results (as_completed fs [0..<length batches]) acc), db')"
proof -
  have keys: "map fst fs = [0..<length batches]"
    using run_workers_keys [OF assms] by (simp add: filter_id_conv)
  then have "distinct (map fst fs)" by simp
  then have "as_completed fs (map fst fs) = fs" by (rule as_completed_keys)
  with keys have a: "as_completed fs [0..<length batches] = fs" by simp
  have "list_all (\<lambda>x. \<not> isl (snd x)) fs"
    using run_workers_returned [OF assms] by (simp add: list_all_iff)
  then have "collect_results fs acc = foldl add_result acc (map (projr \<circ> snd) fs)"
    by (rule collect_results_returned)
  with sequential_loop_run_workers [of pf self batches 0 db fs db' acc] assms a
  show ?thesis by simp
qed

lemma sort_upt: "sort [0..<n] = [0..<n]"
  by (simp add: sorted_sort_id)

text \<open>
  The futures of a run of the pool are the outcomes of \<open>process_batch\<close> on the batches, each
  run on the database state that the batch before it in the order left behind.
\<close>

lemma run_workers_chain:
  assumes "run_workers pf self batches order db = (fs, db')"
    and "\<forall>i\<in>set order. i < length batches"
  shows "\<exists>st. st 0 = db \<and> st (length order) = db'
           \<and> (\<forall>k<length order.
                 process_batch pf self (batches ! (order ! k)) (st k) = (snd (fs ! k), st (Suc k)))"
  using assms
proof (induction order arbitrary: db fs db')
  case Nil
  then have "(\<lambda>k. db) 0 = db \<and> (\<lambda>k. db) (length ([] :: nat list)) = db'" by simp
  then show ?case by (intro exI [where x = "\<lambda>k. db"]) simp
next
  case (Cons i order)
  then have i: "i < length batches" and rest: "\<forall>j\<in>set order. j < length batches"
    by simp_all
  obtain out db1 where b: "process_batch pf self (batches ! i) db = (out, db1)"
    by (cases "process_batch pf self (batches ! i) db")
  obtain fs1 db2 where w: "run_workers pf self batches order db1 = (fs1, db2)"
    by (cases "run_workers pf self batches order db1")
  from Cons.prems(1) i b w have fs: "fs = (i, out) # fs1" and db': "db' = db2"
    by simp_all
  from Cons.IH [OF w rest] obtain st where st: "st 0 = db1" "st (length order) = db2"
    "\<forall>k<length order. process_batch pf self (batches ! (order ! k)) (st k)
                         = (snd (fs1 ! k), st (Suc k))"
    by blast
  define st' where "st' = (\<lambda>k. case k of 0 \<Rightarrow> db | Suc j \<Rightarrow> st j)"
  have "st' 0 = db" and "st' (length (i # order)) = db'"
    by (simp_all add: st'_def st(2) db')
  moreover have "process_batch pf self (batches ! ((i # order) ! k)) (st' k)
                   = (snd (fs ! k), st' (Suc k))" if "k < length (i # order)" for k
  proof (cases k)
    case 0
    with b st(1) fs show ?thesis by (simp add: st'_def)
  next
    case (Suc j)
    with that st(3) fs show ?thesis by (simp add: st'_def)
  qed
  ultimately show ?case by blast
qed

lemma pool_chain:
  assumes w: "run_workers pf self batches order db = (fs, db')"
    and e: "sort order = [0..<length batches]"
  shows "\<exists>st. st 0 = db \<and> st (length batches) = db'
           \<and> (\<forall>k<length batches.
                 process_batch pf self (batches ! (order ! k)) (st k)
                   = (Inr (projr (the (map_of fs (order ! k)))), st (Suc k)))"
proof -
  from e have so: "set order = {0..<length batches}" by (rule arrangement_set)
  from e have d: "distinct order" by (rule arrangement_distinct)
  have n: "length order = length batches"
    using arg_cong [OF e, of length] by simp
  from so have range: "\<forall>i\<in>set order. i < length batches" by simp
  from so have "filter (\<lambda>i. i < length batches) order = order"
    by (simp add: filter_id_conv)
  with run_workers_keys [OF w] have keys: "map fst fs = order" by simp
  then have lf: "length fs = length order" by (metis length_map)
  have ok: "list_all (\<lambda>x. \<not> isl (snd x) \<and>
                 records_processed (projr (snd x)) + records_failed (projr (snd x))
                   = int (length (batches ! fst x))) fs"
    using w by (rule run_workers_returned)
  obtain st where st: "st 0 = db" "st (length order) = db'"
    "\<forall>k<length order. process_batch pf self (batches ! (order ! k)) (st k)
                         = (snd (fs ! k), st (Suc k))"
    using run_workers_chain [OF w range] by blast
  have "snd (fs ! k) = Inr (projr (the (map_of fs (order ! k))))" if k: "k < length batches" for k
  proof -
    from k n lf have m: "fs ! k \<in> set fs" by simp
    from k n lf keys have "fst (fs ! k) = order ! k" by (metis nth_map)
    with m have "(order ! k, snd (fs ! k)) \<in> set fs" by (metis prod.collapse)
    moreover from keys d have "distinct (map fst fs)" by simp
    ultimately have "map_of fs (order ! k) = Some (snd (fs ! k))" by simp
    moreover from ok m have "\<not> isl (snd (fs ! k))" by (simp add: list_all_iff)
    ultimately show ?thesis by simp
  qed
  with st n show ?thesis
    by (intro exI [where x = st]) simp
qed

text \<open>
  Claim C1. Whenever the file can be read, both drivers return a summary, and in each the
  processed and the failed count add up to the number of records read. Every batch
  contributes exactly once: there is one result per batch number, \<open>res_s k\<close> or \<open>res_p k\<close>,
  and it is the result \<open>process_batch\<close> returns on that batch, run on the database state
  \<open>st_s k\<close> or \<open>st_p k\<close> that the batches before it left behind (in sequential mode in
  the order of the file, in parallel mode in the order \<open>exec_order\<close> in which the pool lets
  the batches reach the database). The two counts of the summary are the sums of the counts
  of these results over the batch numbers, each taken once, and its messages are the
  messages of these results, in the order of the file in sequential mode and in the order
  \<open>completion_order\<close> in which the futures are handed back in parallel mode. The
  hypothesis on the schedule says what the executor does with the futures the driver
  submits, one per batch: it runs each once and hands each back once. No future raises, since
  \<open>process_batch\<close> does not (\<open>process_batch_total\<close>).
\<close>

theorem run_counts_every_record:
  assumes "read_csv_batches pf self path = Inr batches"
    and "0 < max_workers self"
    and "valid_schedule (nat (max_workers self)) (length batches) sched"
  shows "\<exists>rows rs dbs rp dbp (res_s :: nat \<Rightarrow> ProcessingResult) (res_p :: nat \<Rightarrow> ProcessingResult)
           st_s st_p.
           read_csv pf path = Inr rows
         \<and> process_file_sequential pf self path db = (Inr rs, dbs)
         \<and> process_file_parallel pf sched self path db = (Inr rp, dbp)
         \<and> records_processed rs + records_failed rs = int (length rows)
         \<and> records_processed rp + records_failed rp = int (length rows)
         \<and> st_s 0 = db \<and> st_s (length batches) = dbs
         \<and> (\<forall>k<length batches.
               process_batch pf self (batches ! k) (st_s k) = (Inr (res_s k), st_s (Suc k)))
         \<and> (\<forall>i<length batches.
               records_processed (res_s i) + records_failed (res_s i) = int (length (batches ! i)))
         \<and> records_processed rs = (\<Sum>i\<leftarrow>[0..<length batches]. records_processed (res_s i))
         \<and> records_failed rs = (\<Sum>i\<leftarrow>[0..<length batches]. records_failed (res_s i))
         \<and> errors rs = concat (map (\<lambda>i. errors (res_s i)) [0..<length batches])
         \<and> st_p 0 = db \<and> st_p (length batches) = dbp
         \<and> (\<forall>k<length batches.
               process_batch pf self (batches ! (exec_order sched ! k)) (st_p k)
                 = (Inr (res_p (exec_order sched ! k)), st_p (Suc k)))
         \<and> (\<forall>i<length batches.
               records_processed (res_p i) + records_failed (res_p i) = int (length (batches ! i)))
         \<and> records_processed rp = (\<Sum>i\<leftarrow>[0..<length batches]. records_processed (res_p i))
         \<and> records_failed rp = (\<Sum>i\<leftarrow>[0..<length batches]. records_failed (res_p i))
         \<and> errors rp = concat (map (\<lambda>i. errors (res_p i)) (completion_order sched))"
proof -
  let ?n = "length batches"
  obtain rows where rows: "read_csv pf path = Inr rows"
    and cat: "concat batches = zip [0..<length rows] rows"
    using read_csv_batches_rows [OF assms(1)] by blast
  from cat have len: "length (concat batches) = length rows"
    by simp
  obtain fs dbs where ws: "run_workers pf self batches [0..<?n] db = (fs, dbs)"
    by (cases "run_workers pf self batches [0..<?n] db")
  obtain fp dbp where wp: "run_workers pf self batches (exec_order sched) db = (fp, dbp)"
    by (cases "run_workers pf self batches (exec_order sched) db")
  from assms(3) have e: "sort (exec_order sched) = [0..<?n]"
    and c: "sort (completion_order sched) = [0..<?n]"
    by (simp_all add: valid_schedule_def)
  define res_s where "res_s = (\<lambda>i. projr (the (map_of fs i)))"
  define res_p where "res_p = (\<lambda>i. projr (the (map_of fp i)))"
  define rs where "rs = summary (collect_results (as_completed fs [0..<?n]) no_totals)"
  define rp where "rp = summary (collect_results (as_completed fp (completion_order sched)) no_totals)"
  have ts: "\<forall>i<?n. records_processed (res_s i) + records_failed (res_s i) = int (length (batches ! i))"
    "collect_results (as_completed fs [0..<?n]) no_totals
       = foldl add_result no_totals (map res_s [0..<?n])"
    "total_processed (collect_results (as_completed fs [0..<?n]) no_totals)
       = total_processed no_totals + (\<Sum>i\<leftarrow>[0..<?n]. records_processed (res_s i))"
    "total_failed (collect_results (as_completed fs [0..<?n]) no_totals)
       = total_failed no_totals + (\<Sum>i\<leftarrow>[0..<?n]. records_failed (res_s i))"
    unfolding res_s_def
    by (rule pool_totals [OF ws sort_upt sort_upt])+
  have tp: "\<forall>i<?n. records_processed (res_p i) + records_failed (res_p i) = int (length (batches ! i))"
    "collect_results (as_completed fp (completion_order sched)) no_totals
       = foldl add_result no_totals (map res_p (completion_order sched))"
    "total_processed (collect_results (as_completed fp (completion_order sched)) no_totals)
       = total_processed no_totals + (\<Sum>i\<leftarrow>[0..<?n]. records_processed (res_p i))"
    "total_failed (collect_results (as_completed fp (completion_order sched)) no_totals)
       = total_failed no_totals + (\<Sum>i\<leftarrow>[0..<?n]. records_failed (res_p i))"
    unfolding res_p_def
    by (rule pool_totals [OF wp e c])+
  obtain st_s where ss: "st_s 0 = db" "st_s ?n = dbs"
    and cs0: "\<forall>k<?n. process_batch pf self (batches ! ([0..<?n] ! k)) (st_s k)
                       = (Inr (res_s ([0..<?n] ! k)), st_s (Suc k))"
    unfolding res_s_def using pool_chain [OF ws sort_upt] by blast
  from cs0 have cs: "\<forall>k<?n. process_batch pf self (batches ! k) (st_s k)
                       = (Inr (res_s k), st_s (Suc k))"
    by simp
  obtain st_p where sp: "st_p 0 = db" "st_p ?n = dbp"
    and cp: "\<forall>k<?n. process_batch pf self (batches ! (exec_order sched ! k)) (st_p k)
                       = (Inr (res_p (exec_order sched ! k)), st_p (Suc k))"
    unfolding res_p_def using pool_chain [OF wp e] by blast
  have seq: "process_file_sequential pf self path db = (Inr rs, dbs)"
    by (simp add: process_file_sequential_def assms(1) sequential_loop_pool [OF ws] rs_def)
  have par: "process_file_parallel pf sched self path db = (Inr rp, dbp)"
    using assms(2) by (simp add: process_file_parallel_def assms(1) wp rp_def)
  have z: "total_processed no_totals = 0" "total_failed no_totals = 0" "all_errors no_totals = []"
    by (simp_all add: no_totals_def)
  have ps: "records_processed rs = (\<Sum>i\<leftarrow>[0..<?n]. records_processed (res_s i))"
    and fs: "records_failed rs = (\<Sum>i\<leftarrow>[0..<?n]. records_failed (res_s i))"
    by (simp_all add: rs_def summary_def ts(3,4) z)
  have es: "errors rs = concat (map (\<lambda>i. errors (res_s i)) [0..<?n])"
    by (simp add: rs_def summary_def ts(2) foldl_add_result_errors z comp_def)
  have pp: "records_processed rp = (\<Sum>i\<leftarrow>[0..<?n]. records_processed (res_p i))"
    and fp: "records_failed rp = (\<Sum>i\<leftarrow>[0..<?n]. records_failed (res_p i))"
    by (simp_all add: rp_def summary_def tp(3,4) z)
  have ep: "errors rp = concat (map (\<lambda>i. errors (res_p i)) (completion_order sched))"
    by (simp add: rp_def summary_def tp(2) foldl_add_result_errors z comp_def)
  have ts': "records_processed rs + records_failed rs = int (length rows)"
    unfolding ps fs using sum_list_results [OF ts(1)] len by simp
  have tp': "records_processed rp + records_failed rp = int (length rows)"
    unfolding pp fp using sum_list_results [OF tp(1)] len by simp
  from rows seq par ts' tp' ss cs ts(1) ps fs es sp cp tp(1) pp fp ep
  have "read_csv pf path = Inr rows
         \<and> process_file_sequential pf self path db = (Inr rs, dbs)
         \<and> process_file_parallel pf sched self path db = (Inr rp, dbp)
         \<and> records_processed rs + records_failed rs = int (length rows)
         \<and> records_processed rp + records_failed rp = int (length rows)
         \<and> st_s 0 = db \<and> st_s (length batches) = dbs
         \<and> (\<forall>k<length batches.
               process_batch pf self (batches ! k) (st_s k) = (Inr (res_s k), st_s (Suc k)))
         \<and> (\<forall>i<length batches.
               records_processed (res_s i) + records_failed (res_s i) = int (length (batches ! i)))
         \<and> records_processed rs = (\<Sum>i\<leftarrow>[0..<length batches]. records_processed (res_s i))
         \<and> records_failed rs = (\<Sum>i\<leftarrow>[0..<length batches]. records_failed (res_s i))
         \<and> errors rs = concat (map (\<lambda>i. errors (res_s i)) [0..<length batches])
         \<and> st_p 0 = db \<and> st_p (length batches) = dbp
         \<and> (\<forall>k<length batches.
               process_batch pf self (batches ! (exec_order sched ! k)) (st_p k)
                 = (Inr (res_p (exec_order sched ! k)), st_p (Suc k)))
         \<and> (\<forall>i<length batches.
               records_processed (res_p i) + records_failed (res_p i) = int (length (batches ! i)))
         \<and> records_processed rp = (\<Sum>i\<leftarrow>[0..<length batches]. records_processed (res_p i))
         \<and> records_failed rp = (\<Sum>i\<leftarrow>[0..<length batches]. records_failed (res_p i))
         \<and> errors rp = concat (map (\<lambda>i. errors (res_p i)) (completion_order sched))"
    by (intro conjI)
  then show ?thesis
    apply -
    apply (rule exI [where x = rows], rule exI [where x = rs], rule exI [where x = dbs])
    apply (rule exI [where x = rp], rule exI [where x = dbp])
    apply (rule exI [where x = res_s], rule exI [where x = res_p])
    apply (rule exI [where x = st_s], rule exI [where x = st_p])
    apply assumption
    done
qed

lemma read_example_batches:
  "read_csv_batches example_platform example_processor ''input.csv'' = Inr example_batches"
  by (simp add: read_csv_batches_def example_platform_def example_processor_def example_rows_def
      example_batches_def chunks.simps upt_rec numeral_2_eq_2)

lemma example_schedule_valid: "valid_schedule 1 2 example_schedule"
  by (simp add: valid_schedule_def example_schedule_def upt_rec numeral_2_eq_2)

theorem run_counts_every_record_witness:
  "read_csv_batches example_platform example_processor ''input.csv'' = Inr example_batches
   \<and> 0 < max_workers example_processor
   \<and> valid_schedule (nat (max_workers example_processor)) (length example_batches) example_schedule
   \<and> (\<exists>rs dbs rp dbp.
         process_file_sequential example_platform example_processor ''input.csv'' 0 = (Inr rs, dbs)
       \<and> process_file_parallel example_platform example_schedule example_processor ''input.csv'' 0
           = (Inr rp, dbp)
       \<and> records_processed rs + records_failed rs = 3
       \<and> records_processed rp + records_failed rp = 3)"
proof -
  have m: "0 < max_workers example_processor"
    by (simp add: example_processor_def)
  have v: "valid_schedule (nat (max_workers example_processor)) (length example_batches) example_schedule"
    using example_schedule_valid by (simp add: example_processor_def example_batches_def numeral_2_eq_2)
  obtain rows rs dbs rp dbp where "read_csv example_platform ''input.csv'' = Inr rows"
    and s: "process_file_sequential example_platform example_processor ''input.csv'' 0 = (Inr rs, dbs)"
    and p: "process_file_parallel example_platform example_schedule example_processor ''input.csv'' 0
           = (Inr rp, dbp)"
    and "records_processed rs + records_failed rs = int (length rows)"
    and "records_processed rp + records_failed rp = int (length rows)"
    using run_counts_every_record [OF read_example_batches m v, of 0] by blast
  moreover from this(1) have "rows = example_rows"
    by (simp add: example_platform_def)
  ultimately have "records_processed rs + records_failed rs = 3"
    and "records_processed rp + records_failed rp = 3"
    by (simp_all add: example_rows_def)
  with s p read_example_batches m v show ?thesis by blast
qed

lemma set_concat_arrangement:
  assumes "sort order = [0..<n]"
  shows "set (concat (map g order)) = set (concat (map g [0..<n]))"
  using arrangement_set [OF assms] by simp

lemma length_concat_arrangement:
  assumes "sort order = [0..<n]"
  shows "length (concat (map g order)) = length (concat (map g [0..<n]))"
  using sum_list_arrangement [OF assms, of "\<lambda>i. length (g i)"]
  by (simp add: length_concat comp_def)

text \<open>
  Claim C6. With one worker the pool runs the batches in the order of submission, so the
  parallel driver reads and writes the database as the sequential one does and leaves it in
  the same state; the two summaries have the same processed count, failed count and success
  flag. The messages may come in another order: they are the same messages, as many.
\<close>

theorem one_worker_matches_sequential:
  assumes "max_workers self = 1"
    and "read_csv_batches pf self path = Inr batches"
    and "valid_schedule 1 (length batches) sched"
  shows "\<exists>rs rp db'.
           process_file_sequential pf self path db = (Inr rs, db')
         \<and> process_file_parallel pf sched self path db = (Inr rp, db')
         \<and> records_processed rp = records_processed rs
         \<and> records_failed rp = records_failed rs
         \<and> success rp = success rs
         \<and> length (errors rp) = length (errors rs)
         \<and> set (errors rp) = set (errors rs)"
proof -
  let ?n = "length batches"
  let ?done = "completion_order sched"
  from assms(3) have c: "sort ?done = [0..<?n]"
    and so: "sort (exec_order sched) = [0..<?n]" and fo: "fifo_order 1 (exec_order sched)"
    by (simp_all add: valid_schedule_def)
  from so fo have e: "exec_order sched = [0..<?n]"
    by (rule one_worker_order)
  obtain fs db' where w: "run_workers pf self batches [0..<?n] db = (fs, db')"
    by (cases "run_workers pf self batches [0..<?n] db")
  define rs where "rs = summary (collect_results (as_completed fs [0..<?n]) no_totals)"
  define rp where "rp = summary (collect_results (as_completed fs ?done) no_totals)"
  have seq: "process_file_sequential pf self path db = (Inr rs, db')"
    by (simp add: process_file_sequential_def assms(2) sequential_loop_pool [OF w] rs_def)
  have par: "process_file_parallel pf sched self path db = (Inr rp, db')"
    by (simp add: process_file_parallel_def assms(1,2) e w rp_def)
  note ts = pool_totals(2-4) [OF w sort_upt sort_upt, where acc = no_totals]
  note tp = pool_totals(2-4) [OF w sort_upt c, where acc = no_totals]
  have p: "records_processed rp = records_processed rs"
    by (simp add: rs_def rp_def summary_def ts(2) tp(2))
  have f: "records_failed rp = records_failed rs"
    by (simp add: rs_def rp_def summary_def ts(3) tp(3))
  then have s: "success rp = success rs"
    by (simp add: rs_def rp_def summary_def)
  have es: "errors rs = concat (map errors (map (\<lambda>i. projr (the (map_of fs i))) [0..<?n]))"
    by (simp add: rs_def summary_def ts(1) foldl_add_result_errors) (simp add: no_totals_def)
  have ep: "errors rp = concat (map errors (map (\<lambda>i. projr (the (map_of fs i))) ?done))"
    by (simp add: rp_def summary_def tp(1) foldl_add_result_errors) (simp add: no_totals_def)
  have l: "length (errors rp) = length (errors rs)"
    unfolding es ep map_map by (rule length_concat_arrangement [OF c])
  have m: "set (errors rp) = set (errors rs)"
    unfolding es ep map_map by (rule set_concat_arrangement [OF c])
  from seq par p f s l m
  have "process_file_sequential pf self path db = (Inr rs, db')
         \<and> process_file_parallel pf sched self path db = (Inr rp, db')
         \<and> records_processed rp = records_processed rs
         \<and> records_failed rp = records_failed rs
         \<and> success rp = success rs
         \<and> length (errors rp) = length (errors rs)
         \<and> set (errors rp) = set (errors rs)"
    by (intro conjI)
  then show ?thesis
    by (intro exI)
qed

lemma read_failure_both_modes:
  assumes "read_csv_batches pf self path = Inl e"
  shows "process_file_sequential pf self path db = (Inl e, db)"
    and "process_file_parallel pf sched self path db = (Inl e, db)"
  using assms by (simp_all add: process_file_sequential_def process_file_parallel_def)

theorem one_worker_matches_sequential_witness:
  "max_workers example_processor = 1
   \<and> read_csv_batches example_platform example_processor ''input.csv'' = Inr example_batches
   \<and> valid_schedule 1 (length example_batches) example_schedule
   \<and> (\<exists>rs rp db'.
         process_file_sequential example_platform example_processor ''input.csv'' 0 = (Inr rs, db')
       \<and> process_file_parallel example_platform example_schedule example_processor ''input.csv'' 0
           = (Inr rp, db')
       \<and> records_processed rp = records_processed rs
       \<and> records_failed rp = records_failed rs
       \<and> success rp = success rs)"
proof -
  have m: "max_workers example_processor = 1"
    by (simp add: example_processor_def)
  have v: "valid_schedule 1 (length example_batches) example_schedule"
    using example_schedule_valid by (simp add: example_batches_def numeral_2_eq_2)
  obtain rs rp db' where r:
         "process_file_sequential example_platform example_processor ''input.csv'' 0 = (Inr rs, db')
       \<and> process_file_parallel example_platform example_schedule example_processor ''input.csv'' 0
           = (Inr rp, db')
       \<and> records_processed rp = records_processed rs
       \<and> records_failed rp = records_failed rs
       \<and> success rp = success rs
       \<and> length (errors rp) = length (errors rs)
       \<and> set (errors rp) = set (errors rs)"
    using one_worker_matches_sequential [OF m read_example_batches v, of 0]
    by (elim exE) (rule that)
  then have "\<exists>rs rp db'.
         process_file_sequential example_platform example_processor ''input.csv'' 0 = (Inr rs, db')
       \<and> process_file_parallel example_platform example_schedule example_processor ''input.csv'' 0
           = (Inr rp, db')
       \<and> records_processed rp = records_processed rs
       \<and> records_failed rp = records_failed rs
       \<and> success rp = success rs"
    by (intro exI [where x = rs] exI [where x = rp] exI [where x = db']) (simp only: simp_thms)
  with m read_example_batches v show ?thesis by (intro conjI)
qed

text \<open>The handler of the loop over the futures appends one message and goes on to the next
  future; it leaves both counts as they are.\<close>

lemma collect_results_raised:
  "collect_results ((batch_num, Inl e) # rest) acc =
     collect_results rest
       (acc\<lparr>all_errors := all_errors acc @ [''Batch '' @ str_nat batch_num @ '' error: '' @ exn_msg e]\<rparr>)"
  by simp

lemma collect_results_counts_raised:
  "total_processed (collect_results [(batch_num, Inl e)] acc) = total_processed acc
   \<and> total_failed (collect_results [(batch_num, Inl e)] acc) = total_failed acc"
  by simp

text \<open>
  Claim C2. When a worker raises, the loop over the futures is to count every record of that
  batch as failed, record one message and go on. It records the message and goes on, but it
  counts nothing: of two futures, the first raising and the second a result of two processed
  records, the summary has two processed records, no failed record and the success flag set.
\<close>

theorem worker_failure_not_counted:
  "summary (collect_results
      [(0, Inl (Exn (LibraryError ''MemoryError'') ''out of memory'')),
       (1, Inr \<lparr>success = True, records_processed = 2, records_failed = 0, errors = []\<rparr>)]
      no_totals)
   = \<lparr>success = True, records_processed = 2, records_failed = 0,
      errors = [''Batch 0 error: out of memory'']\<rparr>"
  by (simp add: summary_def no_totals_def add_result_def str_nat.simps digit_chars_def)

section \<open>The entry point\<close>

lemma parallel_success_flag:
  "process_file_parallel pf sched self path db = (Inr result, db') \<Longrightarrow>
     success result = (records_failed result = 0)"
  by (auto simp: process_file_parallel_def summary_def split: sum.splits if_splits prod.splits)

text \<open>
  Claim C7. The exit code is 0 or 1. It is 1 when the input-file argument is missing, when
  the input file does not exist, and when \<^verbatim>\<open>DATABASE_URL\<close> is unset or empty. It is 0
  exactly when the set-up succeeds, the run returns a summary, and the summary's success flag
  is set, which is when its failed count is zero.
\<close>

theorem main_exit_code:
  "(main pf sched argv environ db = 0 \<or> main pf sched argv environ db = 1)
   \<and> (length argv < 2 \<longrightarrow> main pf sched argv environ db = 1)
   \<and> (2 \<le> length argv \<and> \<not> path_exists pf (argv ! 1) \<longrightarrow> main pf sched argv environ db = 1)
   \<and> (environ ''DATABASE_URL'' = None \<or> environ ''DATABASE_URL'' = Some []
        \<longrightarrow> main pf sched argv environ db = 1)
   \<and> (main pf sched argv environ db = 0 \<longleftrightarrow>
        (\<exists>url processor result.
           2 \<le> length argv \<and> path_exists pf (argv ! 1)
         \<and> environ ''DATABASE_URL'' = Some url \<and> url \<noteq> []
         \<and> snd (DataProcessor_init pf url (Some 1000) (Some 4)) = Inr processor
         \<and> fst (process_file_parallel pf sched processor (argv ! 1) db) = Inr result
         \<and> success result \<and> records_failed result = 0))"
proof (intro conjI impI)
  show "main pf sched argv environ db = 0 \<or> main pf sched argv environ db = 1"
    by (simp add: main_def Let_def split: option.splits sum.splits)
next
  assume "length argv < 2"
  then show "main pf sched argv environ db = 1"
    by (simp add: main_def)
next
  assume "2 \<le> length argv \<and> \<not> path_exists pf (argv ! 1)"
  then show "main pf sched argv environ db = 1"
    by (simp add: main_def Let_def)
next
  assume "environ ''DATABASE_URL'' = None \<or> environ ''DATABASE_URL'' = Some []"
  then show "main pf sched argv environ db = 1"
    by (auto simp: main_def Let_def)
next
  have flag: "success result = (records_failed result = 0)"
    if "fst (process_file_parallel pf sched processor (argv ! 1) db) = Inr result"
    for processor result
    using that parallel_success_flag [of pf sched processor "argv ! 1" db result]
    by (cases "process_file_parallel pf sched processor (argv ! 1) db") simp
  show "main pf sched argv environ db = 0 \<longleftrightarrow>
        (\<exists>url processor result.
           2 \<le> length argv \<and> path_exists pf (argv ! 1)
         \<and> environ ''DATABASE_URL'' = Some url \<and> url \<noteq> []
         \<and> snd (DataProcessor_init pf url (Some 1000) (Some 4)) = Inr processor
         \<and> fst (process_file_parallel pf sched processor (argv ! 1) db) = Inr result
         \<and> success result \<and> records_failed result = 0)"
    using flag
    by (auto simp: main_def Let_def not_less split: option.splits sum.splits if_splits)
qed

lemma init_main_processor:
  "snd (DataProcessor_init example_platform ''sqlite://'' (Some 1000) (Some 4)) = Inr main_processor"
  by (simp add: DataProcessor_init_def example_platform_def main_processor_def)

lemma process_rows_clean:
  "process_rows fr [(0, example_record)] =
     \<lparr>n_processed = 1, n_failed = 0, errs = [], valid_records = [example_processed]\<rparr>"
  by (simp add: process_rows_def process_row_def initial_state_def validate_example_record
      process_record_example)

lemma process_rows_input:
  "process_rows fr [(0, example_record), (Suc 0, text_record), (2, example_record)] =
     \<lparr>n_processed = 2, n_failed = 1, errs = [''Validation failed for record 1''],
      valid_records = [example_processed, example_processed]\<rparr>"
  by (simp add: process_rows_def process_row_def initial_state_def validate_example_record
      validate_text_record process_record_example str_nat.simps digit_chars_def)

lemma read_clean:
  "read_csv_batches example_platform main_processor ''clean.csv'' = Inr [[(0, example_record)]]"
  by (simp add: read_csv_batches_def example_platform_def main_processor_def chunks.simps)

lemma read_input:
  "read_csv_batches example_platform main_processor ''input.csv''
     = Inr [[(0, example_record), (Suc 0, text_record), (2, example_record)]]"
  by (simp add: read_csv_batches_def example_platform_def main_processor_def chunks.simps
      example_rows_def upt_rec numeral_3_eq_3)

lemma parallel_clean:
  "process_file_parallel example_platform single_schedule main_processor ''clean.csv'' 0
     = (Inr \<lparr>success = True, records_processed = 1, records_failed = 0, errors = []\<rparr>, 1)"
  by (simp add: process_file_parallel_def read_clean single_schedule_def process_batch_def
      process_rows_clean store_batch_def as_completed_def summary_def no_totals_def add_result_def)
    (simp add: main_processor_def example_engine_def add_result_def)

lemma parallel_input:
  "process_file_parallel example_platform single_schedule main_processor ''input.csv'' 0
     = (Inr \<lparr>success = False, records_processed = 2, records_failed = 1,
             errors = [''Validation failed for record 1'']\<rparr>, 1)"
  by (simp add: process_file_parallel_def read_input single_schedule_def process_batch_def
      process_rows_input store_batch_def as_completed_def summary_def no_totals_def add_result_def)
    (simp add: main_processor_def example_engine_def add_result_def)

theorem main_exit_code_witness:
  "main example_platform single_schedule [''advanced_data_processor.py'', ''clean.csv'']
     [''DATABASE_URL'' \<mapsto> ''sqlite://''] 0 = 0
   \<and> main example_platform single_schedule [''advanced_data_processor.py'', ''input.csv'']
     [''DATABASE_URL'' \<mapsto> ''sqlite://''] 0 = 1
   \<and> main example_platform single_schedule [''advanced_data_processor.py'']
     [''DATABASE_URL'' \<mapsto> ''sqlite://''] 0 = 1
   \<and> main example_platform single_schedule [''advanced_data_processor.py'', ''missing.csv'']
     [''DATABASE_URL'' \<mapsto> ''sqlite://''] 0 = 1
   \<and> main example_platform single_schedule [''advanced_data_processor.py'', ''clean.csv'']
     Map.empty 0 = 1"
proof -
  let ?env = "[''DATABASE_URL'' \<mapsto> ''sqlite://'']"
  let ?prog = "''advanced_data_processor.py''"
  note t = main_exit_code [where pf = example_platform and sched = single_schedule and db = 0]
  have x: "path_exists example_platform ''clean.csv''" "path_exists example_platform ''input.csv''"
    "\<not> path_exists example_platform ''missing.csv''"
    by (simp_all add: example_platform_def)
  have "\<exists>url processor result.
           2 \<le> length [?prog, ''clean.csv''] \<and> path_exists example_platform ([?prog, ''clean.csv''] ! 1)
         \<and> ?env ''DATABASE_URL'' = Some url \<and> url \<noteq> []
         \<and> snd (DataProcessor_init example_platform url (Some 1000) (Some 4)) = Inr processor
         \<and> fst (process_file_parallel example_platform single_schedule processor
                  ([?prog, ''clean.csv''] ! 1) 0) = Inr result
         \<and> success result \<and> records_failed result = 0"
    using x(1) init_main_processor parallel_clean
    by (intro exI [where x = "''sqlite://''"] exI [where x = main_processor]
        exI [where x = "\<lparr>success = True, records_processed = 1, records_failed = 0, errors = []\<rparr>"])
      simp
  with t [where argv = "[?prog, ''clean.csv'']" and environ = ?env]
  have a: "main example_platform single_schedule [?prog, ''clean.csv''] ?env 0 = 0"
    by blast
  have "\<not> (\<exists>url processor result.
           2 \<le> length [?prog, ''input.csv''] \<and> path_exists example_platform ([?prog, ''input.csv''] ! 1)
         \<and> ?env ''DATABASE_URL'' = Some url \<and> url \<noteq> []
         \<and> snd (DataProcessor_init example_platform url (Some 1000) (Some 4)) = Inr processor
         \<and> fst (process_file_parallel example_platform single_schedule processor
                  ([?prog, ''input.csv''] ! 1) 0) = Inr result
         \<and> success result \<and> records_failed result = 0)"
    using init_main_processor parallel_input by auto
  with t [where argv = "[?prog, ''input.csv'']" and environ = ?env]
  have b: "main example_platform single_schedule [?prog, ''input.csv''] ?env 0 = 1"
    by blast
  from t [where argv = "[?prog]" and environ = ?env]
  have c: "main example_platform single_schedule [?prog] ?env 0 = 1"
    by simp
  from t [where argv = "[?prog, ''missing.csv'']" and environ = ?env] x(3)
  have d: "main example_platform single_schedule [?prog, ''missing.csv''] ?env 0 = 1"
    by simp
  from t [where argv = "[?prog, ''clean.csv'']" and environ = Map.empty]
  have e: "main example_platform single_schedule [?prog, ''clean.csv''] Map.empty 0 = 1"
    by simp
  from a b c d e show ?thesis by (intro conjI)
qed

end
